theory Spec2Isabelle
  imports Complex_Main
begin

section \<open>The gesture controller of src/components/GestureController.tsx\<close>

text \<open>
  The component keeps five mutable references (\<open>useRef\<close>) and runs one callback,
  \<open>runDetection\<close>, on every animation frame of the host. The embedding passes the
  references as a record and returns, with the new record, the list of external calls the
  frame made, in the order in which it made them.

  JavaScript numbers are modelled by \<open>real\<close> (coordinates, distances, ratios), by \<open>int\<close>
  (the millisecond clock \<open>Date.now()\<close>) and by \<open>nat\<close> (the counter of missed frames, which
  the code only zeroes and increments). The two moving averages are computed as the code
  computes them, in double precision: every sum and every quotient of lines 78 to 81 and of
  line 110 is rounded by \<open>rnd\<close>. The geometry of one frame (lines 72-73 and 89 to 105) is
  kept in the reals, and overflow, underflow and \<open>NaN\<close> are outside the model. The React
  state \<open>debugState\<close> is a display label that nothing reads back, and is left out.
\<close>

subsection \<open>Data\<close>

text \<open>A landmark of the handpose model is an array \<open>[x, y, z]\<close>.\<close>

type_synonym landmark = "real \<times> real \<times> real"

definition coord0 :: "landmark \<Rightarrow> real" where
  "coord0 p = fst p"

definition coord1 :: "landmark \<Rightarrow> real" where
  "coord1 p = fst (snd p)"

text \<open>One element of the array that \<open>model.estimateHands\<close> resolves to.\<close>

record prediction =
  landmarks :: "landmark list"

text \<open>The \<open>await model.estimateHands(video)\<close> either throws or yields the predictions.\<close>

datatype estimate = Throws | Predictions "prediction list"

text \<open>
  What one call of \<open>runDetection\<close> reads from its environment: whether the guard of line 48
  holds (model loaded, webcam mounted, video with \<open>readyState === 4\<close>), the clock, the size
  of the video, and what the pose model would answer if asked.
\<close>

record notification =
  ready :: bool
  now :: int
  videoWidth :: nat
  videoHeight :: nat
  estimateHands :: estimate

text \<open>The references of lines 22 to 28.\<close>

record refs =
  lastDetectionTime :: int
  ratioHistory :: "real list"
  posHistory :: "(real \<times> real) list"
  isCurrentlyOpen :: bool
  missedFrames :: nat

definition initRefs :: refs where
  "initRefs = \<lparr>lastDetectionTime = 0, ratioHistory = [], posHistory = [],
               isCurrentlyOpen = False, missedFrames = 0\<rparr>"

text \<open>The argument of \<open>onGesture\<close>; the position is the pair \<open>(x, y)\<close>.\<close>

record gesture =
  isOpen :: bool
  position :: "real \<times> real"
  isDetected :: bool

text \<open>
  The external calls of a frame. A call of the pose model and a call of the consumer's
  callback carry the references as they stand at the moment of the call.
\<close>

datatype event =
    EstimateHands refs
  | OnGesture gesture refs
  | RequestAnimationFrame

subsection \<open>Double precision\<close>

text \<open>
  The result of an arithmetic operation on doubles is the exact result rounded to the
  nearest number with a significand of 53 bits, the one with an even significand when two
  are equally near. \<open>expo x\<close> is the binary exponent of \<open>x\<close>, so that \<open>x\<close> scaled by
  \<open>pow2 (52 - expo x)\<close> lies between \<open>2 ^ 52\<close> and \<open>2 ^ 53\<close>, where the doubles are
  the integers. The range of the exponent is not bounded here.
\<close>

definition roundEven :: "real \<Rightarrow> int" where
  "roundEven y =
     (let f = \<lfloor>y\<rfloor>; d = y - of_int f
      in if d < 1 / 2 then f else if 1 / 2 < d then f + 1 else if even f then f else f + 1)"

definition pow2 :: "int \<Rightarrow> real" where
  "pow2 e = 2 powr of_int e"

definition expo :: "real \<Rightarrow> int" where
  "expo x = \<lfloor>log 2 \<bar>x\<bar>\<rfloor>"

definition rnd :: "real \<Rightarrow> real" where
  "rnd x =
     (if x = 0 then 0
      else of_int (roundEven (x * pow2 (52 - expo x))) * pow2 (expo x - 52))"

subsection \<open>Smoothing buffers\<close>

text \<open>\<open>h.push(v); if (h.length > cap) h.shift()\<close> (lines 75-76 and 108-109).\<close>

definition pushShift :: "nat \<Rightarrow> 'a \<Rightarrow> 'a list \<Rightarrow> 'a list" where
  "pushShift cap v h = (let h' = h @ [v] in if length h' > cap then tl h' else h')"

text \<open>
  Lines 78 to 81: the componentwise sum by \<open>reduce\<close>, from the left and starting at 0,
  divided by the length; each \<open>+\<close> and each \<open>/\<close> is one of doubles.
\<close>

definition avgPos :: "(real \<times> real) list \<Rightarrow> real \<times> real" where
  "avgPos h = foldl (\<lambda>acc curr. (rnd (fst acc + fst curr), rnd (snd acc + snd curr))) (0, 0) h"

definition smoothedPos :: "(real \<times> real) list \<Rightarrow> real \<times> real" where
  "smoothedPos h =
     (rnd (fst (avgPos h) / real (length h)), rnd (snd (avgPos h) / real (length h)))"

text \<open>Line 110, likewise.\<close>

definition smoothedRatio :: "real list \<Rightarrow> real" where
  "smoothedRatio h = rnd (foldl (\<lambda>a b. rnd (a + b)) 0 h / real (length h))"

subsection \<open>Position and openness of one hand\<close>

text \<open>Lines 72-73.\<close>

definition rawPosition :: "landmark \<Rightarrow> nat \<Rightarrow> nat \<Rightarrow> real \<times> real" where
  "rawPosition wrist w h =
     (-1 * ((coord0 wrist / real w) * 2 - 1), -1 * ((coord1 wrist / real h) * 2 - 1))"

text \<open>
  Reading an array out of range gives \<open>undefined\<close>, and indexing \<open>undefined\<close> (\<open>wrist[0]\<close>,
  \<open>p2[0]\<close>) throws a \<open>TypeError\<close>: \<open>None\<close> below.
\<close>

definition landmarkAt :: "landmark list \<Rightarrow> nat \<Rightarrow> landmark option" where
  "landmarkAt ls i = (if i < length ls then Some (ls ! i) else None)"

definition tips :: "nat list" where
  "tips = [8, 12, 16, 20]"

definition bases :: "nat list" where
  "bases = [5, 9, 13, 17]"

definition getDist :: "landmark \<Rightarrow> landmark \<Rightarrow> real" where
  "getDist p1 p2 = sqrt ((coord0 p1 - coord0 p2)\<^sup>2 + (coord1 p1 - coord1 p2)\<^sup>2)"

text \<open>The loop of lines 96 to 99, with its two accumulators.\<close>

function distLoop :: "landmark \<Rightarrow> landmark list \<Rightarrow> nat \<Rightarrow> real \<Rightarrow> real \<Rightarrow> (real \<times> real) option" where
  "distLoop wrist ls i totalBaseDist totalTipDist =
     (if i < 4 then
        (case landmarkAt ls (bases ! i) of
           None \<Rightarrow> None
         | Some b \<Rightarrow>
             (case landmarkAt ls (tips ! i) of
                None \<Rightarrow> None
              | Some t \<Rightarrow> distLoop wrist ls (i + 1) (totalBaseDist + getDist wrist b)
                                     (totalTipDist + getDist wrist t)))
      else Some (totalBaseDist, totalTipDist))"
  by pat_completeness auto
termination
  by (relation "measure (\<lambda>(wrist, ls, i, b, t). 4 - i)") auto

declare distLoop.simps [simp del]

text \<open>\<open>d || 1\<close>: the right operand when the left one is falsy, which for a number is zero.\<close>

definition orOne :: "real \<Rightarrow> real" where
  "orOne d = (if d = 0 then 1 else d)"

text \<open>Lines 93 to 105; \<open>None\<close> when a landmark is missing.\<close>

definition rawRatio :: "landmark \<Rightarrow> landmark list \<Rightarrow> real option" where
  "rawRatio wrist ls =
     (case distLoop wrist ls 0 0 0 of
        None \<Rightarrow> None
      | Some (totalBaseDist, totalTipDist) \<Rightarrow>
          (let avgBaseDist = totalBaseDist / 4;
               avgTipDist = totalTipDist / 4
           in Some (avgTipDist / orOne avgBaseDist)))"

text \<open>Lines 113 to 117; the thresholds 1.6 and 1.2 are the rationals \<open>16 / 10\<close> and \<open>12 / 10\<close>.\<close>

definition hysteresis :: "bool \<Rightarrow> real \<Rightarrow> bool" where
  "hysteresis isCur sr =
     (if \<not> isCur \<and> sr > 16 / 10 then True
      else if isCur \<and> sr < 12 / 10 then False
      else isCur)"

subsection \<open>One frame\<close>

text \<open>
  Lines 64 to 127, the branch \<open>predictions.length > 0\<close>. A \<open>TypeError\<close> leaves the block at
  the point where it is thrown and is swallowed by the \<open>catch\<close> of line 144, so the
  assignments made before it stay. The property \<open>onGesture\<close> is mandatory in
  \<open>GestureControllerProps\<close>, so the test of line 125 holds.
\<close>

definition handFound :: "refs \<Rightarrow> nat \<Rightarrow> nat \<Rightarrow> prediction \<Rightarrow> refs \<times> event list" where
  "handFound s w h hand =
     (let s1 = s\<lparr>missedFrames := 0\<rparr> in
      case landmarkAt (landmarks hand) 0 of
        None \<Rightarrow> (s1, [])
      | Some wrist \<Rightarrow>
          (let s2 = s1\<lparr>posHistory := pushShift 8 (rawPosition wrist w h) (posHistory s1)\<rparr>;
               xy = smoothedPos (posHistory s2)
           in case rawRatio wrist (landmarks hand) of
                None \<Rightarrow> (s2, [])
              | Some r \<Rightarrow>
                  (let s3 = s2\<lparr>ratioHistory := pushShift 5 r (ratioHistory s2)\<rparr>;
                       s4 = s3\<lparr>isCurrentlyOpen :=
                                 hysteresis (isCurrentlyOpen s3) (smoothedRatio (ratioHistory s3))\<rparr>
                   in (s4, [OnGesture \<lparr>isOpen = isCurrentlyOpen s4, position = xy,
                                        isDetected = True\<rparr> s4]))))"

text \<open>Lines 129 to 142, the branch of an empty answer.\<close>

definition handLost :: "refs \<Rightarrow> refs \<times> event list" where
  "handLost s =
     (let s1 = s\<lparr>missedFrames := missedFrames s + 1\<rparr> in
      if missedFrames s1 > 5 then
        (let s2 = s1\<lparr>isCurrentlyOpen := False, ratioHistory := [], posHistory := []\<rparr>
         in (s2, [OnGesture \<lparr>isOpen = False, position = (0, 0), isDetected = False\<rparr> s2]))
      else (s1, []))"

text \<open>Lines 47 to 150.\<close>

definition runDetection :: "refs \<Rightarrow> notification \<Rightarrow> refs \<times> event list" where
  "runDetection s n =
     (if ready n then
        (if now n - lastDetectionTime s < 60 then (s, [RequestAnimationFrame])
         else
           (let s0 = s\<lparr>lastDetectionTime := now n\<rparr> in
            case estimateHands n of
              Throws \<Rightarrow> (s0, [EstimateHands s0, RequestAnimationFrame])
            | Predictions predictions \<Rightarrow>
                (let r = (if length predictions > 0
                          then handFound s0 (videoWidth n) (videoHeight n) (hd predictions)
                          else handLost s0)
                 in (fst r, EstimateHands s0 # snd r @ [RequestAnimationFrame]))))
      else (s, [RequestAnimationFrame]))"

text \<open>
  The host answers every \<open>requestAnimationFrame\<close> with the next notification: the loop over
  a sequence of notifications, collecting the calls.
\<close>

fun runLoop :: "refs \<Rightarrow> notification list \<Rightarrow> refs \<times> event list" where
  "runLoop s [] = (s, [])"
| "runLoop s (n # ns) =
     (let r1 = runDetection s n;
          r2 = runLoop (fst r1) ns
      in (fst r2, snd r1 @ snd r2))"

subsection \<open>Vocabulary of the properties\<close>

text \<open>
  A notification is processed as a tick when the guard of line 48 holds and the throttle of
  line 52 lets it through; \<open>ticks t ns\<close> says so of every notification of \<open>ns\<close>, for
  a loop whose last detection time is \<open>t\<close>.
\<close>

definition processed :: "refs \<Rightarrow> notification \<Rightarrow> bool" where
  "processed s n = (ready n \<and> \<not> now n - lastDetectionTime s < 60)"

fun ticks :: "int \<Rightarrow> notification list \<Rightarrow> bool" where
  "ticks t [] = True"
| "ticks t (n # ns) = (ready n \<and> \<not> now n - t < 60 \<and> ticks (now n) ns)"

text \<open>A tick with no observation: the pose model answers with an empty array.\<close>

definition missed :: "notification \<Rightarrow> bool" where
  "missed n = (estimateHands n = Predictions [])"

text \<open>A tick with an observation as the pose model documents it: 21 landmarks.\<close>

definition observed :: "notification \<Rightarrow> bool" where
  "observed n =
     (case estimateHands n of
        Throws \<Rightarrow> False
      | Predictions ps \<Rightarrow> (case ps of [] \<Rightarrow> False | p # _ \<Rightarrow> length (landmarks p) = 21))"

text \<open>The two values that an observation feeds into the smoothers.\<close>

definition inputPosition :: "notification \<Rightarrow> (real \<times> real) option" where
  "inputPosition n =
     (case estimateHands n of
        Throws \<Rightarrow> None
      | Predictions ps \<Rightarrow>
          (case ps of
             [] \<Rightarrow> None
           | p # _ \<Rightarrow>
               (case landmarkAt (landmarks p) 0 of
                  None \<Rightarrow> None
                | Some wrist \<Rightarrow> Some (rawPosition wrist (videoWidth n) (videoHeight n)))))"

definition inputRatio :: "notification \<Rightarrow> real option" where
  "inputRatio n =
     (case estimateHands n of
        Throws \<Rightarrow> None
      | Predictions ps \<Rightarrow>
          (case ps of
             [] \<Rightarrow> None
           | p # _ \<Rightarrow>
               (case landmarkAt (landmarks p) 0 of
                  None \<Rightarrow> None
                | Some wrist \<Rightarrow> rawRatio wrist (landmarks p))))"

text \<open>The arguments of the calls of \<open>onGesture\<close>, in order.\<close>

fun gestures :: "event list \<Rightarrow> gesture list" where
  "gestures [] = []"
| "gestures (OnGesture g st # es) = g # gestures es"
| "gestures (EstimateHands st # es) = gestures es"
| "gestures (RequestAnimationFrame # es) = gestures es"

definition lossSignal :: gesture where
  "lossSignal = \<lparr>isOpen = False, position = (0, 0), isDetected = False\<rparr>"

text \<open>Whether a frame called the pose model, and the clock readings of the frames that did.\<close>

fun invokes :: "event list \<Rightarrow> bool" where
  "invokes [] = False"
| "invokes (EstimateHands st # es) = True"
| "invokes (OnGesture g st # es) = invokes es"
| "invokes (RequestAnimationFrame # es) = invokes es"

fun invokedAt :: "refs \<Rightarrow> notification list \<Rightarrow> int list" where
  "invokedAt s [] = []"
| "invokedAt s (n # ns) =
     (let r = runDetection s n
      in (if invokes (snd r) then [now n] else []) @ invokedAt (fst r) ns)"


text \<open>The bound on the two buffers, and the state that a confirmed loss leaves.\<close>

definition bounded :: "refs \<Rightarrow> bool" where
  "bounded s = (length (posHistory s) \<le> 8 \<and> length (ratioHistory s) \<le> 5)"

definition cleared :: "refs \<Rightarrow> bool" where
  "cleared s = (\<not> isCurrentlyOpen s \<and> posHistory s = [] \<and> ratioHistory s = [])"

text \<open>The references after a tick with a complete observation.\<close>

definition afterObservation :: "refs \<Rightarrow> int \<Rightarrow> real \<times> real \<Rightarrow> real \<Rightarrow> refs" where
  "afterObservation s t p r =
     \<lparr>lastDetectionTime = t,
      ratioHistory = pushShift 5 r (ratioHistory s),
      posHistory = pushShift 8 p (posHistory s),
      isCurrentlyOpen = hysteresis (isCurrentlyOpen s) (smoothedRatio (pushShift 5 r (ratioHistory s))),
      missedFrames = 0\<rparr>"

subsection \<open>Sample notifications\<close>

text \<open>
  Frames of a 640 by 480 video at a given clock reading: one where the pose model finds
  nothing, one where it throws, one where it reports a given hand.
\<close>

definition missAt :: "int \<Rightarrow> notification" where
  "missAt t = \<lparr>ready = True, now = t, videoWidth = 640, videoHeight = 480,
               estimateHands = Predictions []\<rparr>"

definition throwAt :: "int \<Rightarrow> notification" where
  "throwAt t = \<lparr>ready = True, now = t, videoWidth = 640, videoHeight = 480,
                estimateHands = Throws\<rparr>"

definition handAt :: "int \<Rightarrow> landmark list \<Rightarrow> notification" where
  "handAt t ls = \<lparr>ready = True, now = t, videoWidth = 640, videoHeight = 480,
                  estimateHands = Predictions [\<lparr>landmarks = ls\<rparr>]\<rparr>"

text \<open>
  A frame of a 1024 by 768 video, and a hand with all its 21 landmarks at one pixel of the
  middle row.
\<close>

definition wideAt :: "int \<Rightarrow> landmark list \<Rightarrow> notification" where
  "wideAt t ls = \<lparr>ready = True, now = t, videoWidth = 1024, videoHeight = 768,
                  estimateHands = Predictions [\<lparr>landmarks = ls\<rparr>]\<rparr>"

definition pointHand :: "real \<Rightarrow> landmark list" where
  "pointHand wx = replicate 21 (wx, 384, 0)"

text \<open>
  A hand with the wrist at pixel \<open>(320, 240)\<close>, the centre of the video, the four base
  joints \<open>b\<close> pixels to its right and the four fingertips \<open>t\<close> pixels to its right.
\<close>

definition sampleHand :: "real \<Rightarrow> real \<Rightarrow> landmark list" where
  "sampleHand b t =
     (let w = (320, 240, 0); k = (320 + b, 240, 0); f = (320 + t, 240, 0)
      in [w, w, w, w, w, k, w, w, f, k, w, w, f, k, w, w, f, k, w, w, f])"

section \<open>Auxiliary facts\<close>

text \<open>Rounding.\<close>

lemma roundEven_error: "\<bar>of_int (roundEven y) - y\<bar> \<le> 1 / 2"
proof -
  have "0 \<le> y - of_int \<lfloor>y\<rfloor>" "y - of_int \<lfloor>y\<rfloor> < 1"
    by linarith+
  then show ?thesis
    by (auto simp: roundEven_def Let_def)
qed

lemma pow2_pos: "0 < pow2 e"
  by (simp add: pow2_def)

lemma pow2_add: "pow2 (a + b) = pow2 a * pow2 b"
  by (simp add: pow2_def powr_add)

lemma pow2_nat: "pow2 (int k) = 2 ^ k"
  by (simp add: pow2_def powr_realpow)

lemma pow2_cancel: "pow2 (a - b) * pow2 (b - a) = 1"
  using pow2_add [of "a - b" "b - a"] by (simp add: pow2_def)

lemma pow2_diff_nat: "pow2 (int m - int k) = 2 ^ m / 2 ^ k"
  using pow2_add [of "int m - int k" "int k"] by (simp add: pow2_nat field_simps)

lemma pow2_neg_nat: "pow2 (int k - int m) * 2 ^ m = 2 ^ k"
  using pow2_diff_nat [of k m] by simp

lemma pow2_52: "pow2 52 = 2 ^ 52"
  using pow2_nat [of 52] by simp

lemma pow2_52_minus: "pow2 (52 - int k) = 2 ^ 52 / 2 ^ k"
  using pow2_diff_nat [of 52 k] by simp

lemma pow2_53_minus: "pow2 (53 - int k) = 2 ^ 53 / 2 ^ k"
  using pow2_diff_nat [of 53 k] by simp

lemma rnd_zero: "rnd 0 = 0"
  by (simp add: rnd_def)

lemma expo_bounds:
  assumes "x \<noteq> 0"
  shows "pow2 (expo x) \<le> \<bar>x\<bar>" and "\<bar>x\<bar> < pow2 (expo x + 1)"
proof -
  from assms have "0 < \<bar>x\<bar>" by simp
  then have "2 powr of_int (expo x) \<le> \<bar>x\<bar> \<and> \<bar>x\<bar> < 2 powr (of_int (expo x) + 1)"
    using floor_log_eq_powr_iff [of "\<bar>x\<bar>" 2 "expo x"] by (simp add: expo_def)
  then show "pow2 (expo x) \<le> \<bar>x\<bar>" and "\<bar>x\<bar> < pow2 (expo x + 1)"
    by (simp_all add: pow2_def)
qed

lemma expo_unique:
  assumes "pow2 e \<le> \<bar>x\<bar>" and "\<bar>x\<bar> < pow2 (e + 1)"
  shows "expo x = e"
proof -
  from assms(1) pow2_pos [of e] have "0 < \<bar>x\<bar>" by linarith
  moreover from assms have "2 powr of_int e \<le> \<bar>x\<bar> \<and> \<bar>x\<bar> < 2 powr (of_int e + 1)"
    by (simp add: pow2_def)
  ultimately show ?thesis
    using floor_log_eq_powr_iff [of "\<bar>x\<bar>" 2 e] by (simp add: expo_def)
qed

lemma rnd_error: "\<bar>rnd x - x\<bar> \<le> \<bar>x\<bar> / 2 ^ 53"
proof (cases "x = 0")
  case True
  then show ?thesis by (simp add: rnd_def)
next
  case False
  let ?e = "expo x"
  let ?y = "x * pow2 (52 - ?e)"
  have "rnd x - x = (of_int (roundEven ?y) - ?y) * pow2 (?e - 52)"
    using False pow2_cancel [of 52 ?e] by (simp add: rnd_def algebra_simps)
  then have "\<bar>rnd x - x\<bar> = \<bar>of_int (roundEven ?y) - ?y\<bar> * pow2 (?e - 52)"
    using pow2_pos [of "?e - 52"] by (simp add: abs_mult)
  also have "\<dots> \<le> (1 / 2) * pow2 (?e - 52)"
    using pow2_pos [of "?e - 52"] by (intro mult_right_mono roundEven_error) simp
  also have "\<dots> = pow2 ?e / 2 ^ 53"
  proof -
    have "pow2 ?e = pow2 (?e - 52) * pow2 52"
      using pow2_add [of "?e - 52" 52] by simp
    then show ?thesis by (simp add: pow2_52)
  qed
  also have "\<dots> \<le> \<bar>x\<bar> / 2 ^ 53"
    using expo_bounds(1) [OF False] by (simp add: divide_right_mono)
  finally show ?thesis .
qed

lemma rnd_eval:
  assumes "2 ^ 52 \<le> \<bar>x\<bar> * 2 ^ k" and "\<bar>x\<bar> * 2 ^ k < 2 ^ 53"
  shows "rnd x = of_int (roundEven (x * 2 ^ k)) / 2 ^ k"
proof -
  have nz: "x \<noteq> 0" using assms(1) by auto
  have lo: "pow2 (52 - int k) \<le> \<bar>x\<bar>"
    using assms(1) by (simp add: pow2_52_minus field_simps)
  have "pow2 (52 - int k + 1) = pow2 (53 - int k)"
    by simp
  then have hi: "\<bar>x\<bar> < pow2 (52 - int k + 1)"
    using assms(2) by (simp only: pow2_53_minus) (simp add: field_simps)
  have e: "expo x = 52 - int k"
    by (rule expo_unique [OF lo hi])
  have a: "pow2 (52 - expo x) = 2 ^ k"
    using pow2_nat [of k] by (simp add: e)
  have "pow2 (expo x - 52) * pow2 (52 - expo x) = 1"
    by (rule pow2_cancel)
  then have b: "pow2 (expo x - 52) = 1 / 2 ^ k"
    by (simp add: a field_simps)
  show ?thesis
    using nz by (simp add: rnd_def a b)
qed

lemma foldl_replicate_Suc: "foldl f a (replicate (Suc k) c) = f (foldl f a (replicate k c)) c"
proof -
  have "replicate (Suc k) c = replicate k c @ [c]"
    by (simp add: replicate_append_same)
  then show ?thesis by (simp only: foldl_append) simp
qed

lemma rnd_error_u: "\<bar>rnd x - x\<bar> \<le> (1 / 2 ^ 53) * \<bar>x\<bar>"
  using rnd_error [of x] by simp

lemma step_bound:
  fixes u A K E :: real
  assumes u: "0 \<le> u" and A: "0 \<le> A" and K: "0 \<le> K" and Ku: "K * u \<le> 1"
    and E: "E \<le> K\<^sup>2 * u * A"
  shows "u * (E + (K + 1) * A) + E \<le> (K + 1)\<^sup>2 * u * A"
proof -
  have nn: "0 \<le> K * u * A"
    using u A K by simp
  have "(K * u) * (K * u * A) \<le> 1 * (K * u * A)"
    by (rule mult_right_mono [OF Ku nn])
  then have sq: "K\<^sup>2 * u * u * A \<le> K * u * A"
    by (simp add: power2_eq_square algebra_simps)
  have "u * (E + (K + 1) * A) + E = (1 + u) * E + u * (K + 1) * A"
    by (simp add: algebra_simps)
  also have "\<dots> \<le> (1 + u) * (K\<^sup>2 * u * A) + u * (K + 1) * A"
    using u E by (simp add: mult_left_mono)
  also have "\<dots> = K\<^sup>2 * u * A + K\<^sup>2 * u * u * A + u * (K + 1) * A"
    by (simp add: algebra_simps)
  also have "\<dots> \<le> K\<^sup>2 * u * A + K * u * A + u * (K + 1) * A"
    using sq by simp
  also have "\<dots> = (K + 1)\<^sup>2 * u * A"
    by (simp add: power2_eq_square algebra_simps)
  finally show ?thesis .
qed

lemma sum_error:
  "real k \<le> 2 ^ 53 \<Longrightarrow>
     \<bar>foldl (\<lambda>a b. rnd (a + b)) 0 (replicate k c) - real k * c\<bar>
       \<le> (real k)\<^sup>2 * (1 / 2 ^ 53) * \<bar>c\<bar>"
proof (induction k)
  case 0
  then show ?case by simp
next
  case (Suc k)
  let ?u = "1 / 2 ^ 53 :: real"
  let ?S = "foldl (\<lambda>a b. rnd (a + b)) 0 (replicate k c)"
  let ?E = "\<bar>?S - real k * c\<bar>"
  from Suc.prems have k: "real k \<le> 2 ^ 53" by simp
  from Suc.IH [OF k] have E: "?E \<le> (real k)\<^sup>2 * ?u * \<bar>c\<bar>" .
  have Ku: "real k * ?u \<le> 1"
    using k by simp
  have tri: "\<bar>?S + c\<bar> \<le> ?E + (real k + 1) * \<bar>c\<bar>"
  proof -
    have "?S + c = (?S - real k * c) + (real k + 1) * c"
      by (simp add: algebra_simps)
    then have "\<bar>?S + c\<bar> \<le> ?E + \<bar>(real k + 1) * c\<bar>"
      using abs_triangle_ineq [of "?S - real k * c" "(real k + 1) * c"] by simp
    then show ?thesis by (simp add: abs_mult)
  qed
  have "rnd (?S + c) - real (Suc k) * c = (rnd (?S + c) - (?S + c)) + (?S - real k * c)"
    by (simp add: algebra_simps)
  then have "\<bar>rnd (?S + c) - real (Suc k) * c\<bar> \<le> \<bar>rnd (?S + c) - (?S + c)\<bar> + ?E"
    using abs_triangle_ineq [of "rnd (?S + c) - (?S + c)" "?S - real k * c"] by simp
  also have "\<dots> \<le> ?u * \<bar>?S + c\<bar> + ?E"
    using rnd_error_u [of "?S + c"] by simp
  also have "\<dots> \<le> ?u * (?E + (real k + 1) * \<bar>c\<bar>) + ?E"
    using tri by (simp add: mult_left_mono)
  also have "\<dots> \<le> (real k + 1)\<^sup>2 * ?u * \<bar>c\<bar>"
    by (rule step_bound [OF _ _ _ Ku E]) simp_all
  finally show ?case
    by (simp only: foldl_replicate_Suc) (simp add: algebra_simps)
qed

lemma mean_bound:
  fixes u A K E :: real
  assumes u: "0 \<le> u" and A: "0 \<le> A" and K: "0 < K" and Ku: "K * u \<le> 1"
    and E: "E \<le> K\<^sup>2 * u * A"
  shows "u * (A + E / K) + E / K \<le> (K + 2) * u * A"
proof -
  have EK: "E / K \<le> K * u * A"
  proof -
    have "E / K \<le> (K\<^sup>2 * u * A) / K"
      using E K by (simp add: divide_right_mono)
    also have "\<dots> = K * u * A"
      using K by (simp add: power2_eq_square)
    finally show ?thesis .
  qed
  have nn: "0 \<le> u * A" using u A by simp
  have "(K * u) * (u * A) \<le> 1 * (u * A)"
    by (rule mult_right_mono [OF Ku nn])
  then have sq: "u * (K * u * A) \<le> u * A"
    by (simp add: algebra_simps)
  have "u * (A + E / K) + E / K \<le> u * (A + K * u * A) + K * u * A"
    using EK u by (simp add: mult_left_mono add_mono)
  also have "\<dots> = u * A + u * (K * u * A) + K * u * A"
    by (simp add: algebra_simps)
  also have "\<dots> \<le> u * A + u * A + K * u * A"
    using sq by linarith
  also have "\<dots> = (K + 2) * u * A"
    by (simp add: algebra_simps)
  finally show ?thesis .
qed

lemma mean_error:
  assumes "0 < k" and "real k \<le> 2 ^ 53"
  shows "\<bar>rnd (foldl (\<lambda>a b. rnd (a + b)) 0 (replicate k c) / real k) - c\<bar>
           \<le> (real k + 2) * (1 / 2 ^ 53) * \<bar>c\<bar>"
proof -
  let ?u = "1 / 2 ^ 53 :: real"
  let ?S = "foldl (\<lambda>a b. rnd (a + b)) 0 (replicate k c)"
  let ?E = "\<bar>?S - real k * c\<bar>"
  from assms(1) have K: "0 < real k" by simp
  have E: "?E \<le> (real k)\<^sup>2 * ?u * \<bar>c\<bar>"
    by (rule sum_error [OF assms(2)])
  have Ku: "real k * ?u \<le> 1"
    using assms(2) by simp
  have d: "?S / real k - c = (?S - real k * c) / real k"
    using K by (simp add: field_simps)
  then have dE: "\<bar>?S / real k - c\<bar> = ?E / real k"
    using K by simp
  have tri: "\<bar>?S / real k\<bar> \<le> \<bar>c\<bar> + ?E / real k"
  proof -
    have "?S / real k = c + (?S / real k - c)" by simp
    then have "\<bar>?S / real k\<bar> \<le> \<bar>c\<bar> + \<bar>?S / real k - c\<bar>"
      using abs_triangle_ineq [of c "?S / real k - c"] by simp
    then show ?thesis by (simp only: dE)
  qed
  have "rnd (?S / real k) - c = (rnd (?S / real k) - ?S / real k) + (?S / real k - c)"
    by simp
  then have "\<bar>rnd (?S / real k) - c\<bar> \<le> \<bar>rnd (?S / real k) - ?S / real k\<bar> + \<bar>?S / real k - c\<bar>"
    using abs_triangle_ineq [of "rnd (?S / real k) - ?S / real k" "?S / real k - c"] by simp
  also have "\<dots> \<le> ?u * \<bar>?S / real k\<bar> + ?E / real k"
    using rnd_error_u [of "?S / real k"] by (simp only: dE)
  also have "\<dots> \<le> ?u * (\<bar>c\<bar> + ?E / real k) + ?E / real k"
    using tri by (simp add: mult_left_mono)
  also have "\<dots> \<le> (real k + 2) * ?u * \<bar>c\<bar>"
    by (rule mean_bound [OF _ _ K Ku E]) simp_all
  finally show ?thesis .
qed

text \<open>One hand.\<close>

lemma getDist_nonneg: "0 \<le> getDist p q"
  by (simp add: getDist_def)

lemma distLoop_complete:
  assumes "21 \<le> length ls"
  shows "distLoop wrist ls 0 0 0 =
           Some (getDist wrist (ls ! 5) + getDist wrist (ls ! 9) + getDist wrist (ls ! 13)
                   + getDist wrist (ls ! 17),
                 getDist wrist (ls ! 8) + getDist wrist (ls ! 12) + getDist wrist (ls ! 16)
                   + getDist wrist (ls ! 20))"
proof -
  have at: "\<And>i. i \<le> 20 \<Longrightarrow> landmarkAt ls i = Some (ls ! i)"
    using assms by (simp add: landmarkAt_def)
  have l4: "\<And>b t. distLoop wrist ls (Suc (Suc (Suc (Suc 0)))) b t = Some (b, t)"
    by (subst distLoop.simps) simp
  have l3: "\<And>b t. distLoop wrist ls (Suc (Suc (Suc 0))) b t
              = Some (b + getDist wrist (ls ! 17), t + getDist wrist (ls ! 20))"
    by (subst distLoop.simps) (simp add: at l4 bases_def tips_def)
  have l2: "\<And>b t. distLoop wrist ls (Suc (Suc 0)) b t
              = Some (b + getDist wrist (ls ! 13) + getDist wrist (ls ! 17),
                      t + getDist wrist (ls ! 16) + getDist wrist (ls ! 20))"
    by (subst distLoop.simps) (simp add: at l3 bases_def tips_def)
  have l1: "\<And>b t. distLoop wrist ls (Suc 0) b t
              = Some (b + getDist wrist (ls ! 9) + getDist wrist (ls ! 13) + getDist wrist (ls ! 17),
                      t + getDist wrist (ls ! 12) + getDist wrist (ls ! 16) + getDist wrist (ls ! 20))"
    by (subst distLoop.simps) (simp add: at l2 bases_def tips_def)
  show ?thesis
    by (subst distLoop.simps) (simp add: at l1 bases_def tips_def)
qed

lemma orOne_nonzero: "orOne d \<noteq> 0"
  by (simp add: orOne_def)

lemma orOne_pos: "0 \<le> d \<Longrightarrow> 0 < orOne d"
  by (simp add: orOne_def)

lemma rawRatio_complete:
  assumes "21 \<le> length ls"
  shows "\<exists>r. rawRatio wrist ls = Some r \<and> 0 \<le> r"
proof -
  let ?b = "getDist wrist (ls ! 5) + getDist wrist (ls ! 9) + getDist wrist (ls ! 13)
                   + getDist wrist (ls ! 17)"
  let ?t = "getDist wrist (ls ! 8) + getDist wrist (ls ! 12) + getDist wrist (ls ! 16)
                   + getDist wrist (ls ! 20)"
  have b: "0 \<le> ?b / 4" and t: "0 \<le> ?t / 4"
    by (simp_all add: getDist_nonneg add_nonneg_nonneg)
  have "rawRatio wrist ls = Some ((?t / 4) / orOne (?b / 4))"
    by (simp add: rawRatio_def distLoop_complete [OF assms])
  moreover have "0 \<le> (?t / 4) / orOne (?b / 4)"
    using t orOne_pos [OF b] by (simp add: divide_nonneg_pos)
  ultimately show ?thesis by blast
qed

lemma length_pushShift: "length h \<le> cap \<Longrightarrow> length (pushShift cap v h) \<le> cap"
  by (simp add: pushShift_def Let_def)

lemma pushShift_room: "length h < cap \<Longrightarrow> pushShift cap v h = h @ [v]"
  by (simp add: pushShift_def Let_def)

lemma observed_inputs:
  assumes "observed n"
  shows "\<exists>p r. inputPosition n = Some p \<and> inputRatio n = Some r \<and> 0 \<le> r"
proof -
  from assms obtain hand ps where e: "estimateHands n = Predictions (hand # ps)"
    and l: "length (landmarks hand) = 21"
    by (auto simp: observed_def split: estimate.splits list.splits)
  from l have w: "landmarkAt (landmarks hand) 0 = Some (landmarks hand ! 0)"
    by (simp add: landmarkAt_def)
  from l have "21 \<le> length (landmarks hand)" by simp
  from rawRatio_complete [OF this, of "landmarks hand ! 0"]
  obtain r where "rawRatio (landmarks hand ! 0) (landmarks hand) = Some r" "0 \<le> r" by blast
  then show ?thesis
    by (simp add: inputPosition_def inputRatio_def e w)
qed

lemma runDetection_skip:
  "\<not> processed s n \<Longrightarrow> runDetection s n = (s, [RequestAnimationFrame])"
  by (simp add: runDetection_def processed_def Let_def)

lemma runDetection_throws:
  "processed s n \<Longrightarrow> estimateHands n = Throws \<Longrightarrow>
     runDetection s n = (s\<lparr>lastDetectionTime := now n\<rparr>,
                         [EstimateHands (s\<lparr>lastDetectionTime := now n\<rparr>), RequestAnimationFrame])"
  by (simp add: runDetection_def processed_def Let_def)

lemma runDetection_missed:
  "processed s n \<Longrightarrow> missed n \<Longrightarrow>
     runDetection s n =
       (fst (handLost (s\<lparr>lastDetectionTime := now n\<rparr>)),
        EstimateHands (s\<lparr>lastDetectionTime := now n\<rparr>)
          # snd (handLost (s\<lparr>lastDetectionTime := now n\<rparr>)) @ [RequestAnimationFrame])"
  by (simp add: runDetection_def processed_def missed_def Let_def)

lemma runDetection_found:
  "processed s n \<Longrightarrow> estimateHands n = Predictions (hand # ps) \<Longrightarrow>
     runDetection s n =
       (fst (handFound (s\<lparr>lastDetectionTime := now n\<rparr>) (videoWidth n) (videoHeight n) hand),
        EstimateHands (s\<lparr>lastDetectionTime := now n\<rparr>)
          # snd (handFound (s\<lparr>lastDetectionTime := now n\<rparr>) (videoWidth n) (videoHeight n) hand)
          @ [RequestAnimationFrame])"
  by (simp add: runDetection_def processed_def Let_def)

lemma runDetection_observed:
  assumes "processed s n" and "inputPosition n = Some p" and "inputRatio n = Some r"
  shows "runDetection s n =
           (afterObservation s (now n) p r,
            [EstimateHands (s\<lparr>lastDetectionTime := now n\<rparr>),
             OnGesture \<lparr>isOpen = isCurrentlyOpen (afterObservation s (now n) p r),
                        position = smoothedPos (posHistory (afterObservation s (now n) p r)),
                        isDetected = True\<rparr> (afterObservation s (now n) p r),
             RequestAnimationFrame])"
proof -
  from assms(2) obtain hand ps wrist where e: "estimateHands n = Predictions (hand # ps)"
    and w: "landmarkAt (landmarks hand) 0 = Some wrist"
    and p: "p = rawPosition wrist (videoWidth n) (videoHeight n)"
    by (auto simp: inputPosition_def split: estimate.splits list.splits option.splits)
  from assms(3) e w have r: "rawRatio wrist (landmarks hand) = Some r"
    by (simp add: inputRatio_def)
  show ?thesis
    unfolding runDetection_found [OF assms(1) e]
    by (simp add: handFound_def w r p afterObservation_def Let_def)
qed

text \<open>The sample frames.\<close>

lemma length_sampleHand: "length (sampleHand b t) = 21"
  by (simp add: sampleHand_def Let_def)

lemma observed_handAt: "observed (handAt t ls) = (length ls = 21)"
  by (simp add: observed_def handAt_def)

text \<open>Runs of missed ticks.\<close>

lemma gestures_append: "gestures (es @ es') = gestures es @ gestures es'"
  by (induction es rule: gestures.induct) simp_all

lemma fst_runLoop_Cons: "fst (runLoop s (n # ns)) = fst (runLoop (fst (runDetection s n)) ns)"
  by (simp add: Let_def)

lemma snd_runLoop_Cons:
  "snd (runLoop s (n # ns)) = snd (runDetection s n) @ snd (runLoop (fst (runDetection s n)) ns)"
  by (simp add: Let_def)

declare runLoop.simps(2) [simp del]

lemma missed_state:
  assumes "processed s n" and "missed n"
  shows "fst (runDetection s n) =
           (if 5 < missedFrames s + 1
            then s\<lparr>lastDetectionTime := now n, missedFrames := missedFrames s + 1,
                   isCurrentlyOpen := False, ratioHistory := [], posHistory := []\<rparr>
            else s\<lparr>lastDetectionTime := now n, missedFrames := missedFrames s + 1\<rparr>)"
  by (simp add: runDetection_missed [OF assms] handLost_def Let_def)

lemma missed_gestures:
  assumes "processed s n" and "missed n"
  shows "gestures (snd (runDetection s n)) = (if 5 < missedFrames s + 1 then [lossSignal] else [])"
  by (simp add: runDetection_missed [OF assms] handLost_def Let_def gestures_append lossSignal_def)

lemma missed_lastDetectionTime:
  "processed s n \<Longrightarrow> missed n \<Longrightarrow> lastDetectionTime (fst (runDetection s n)) = now n"
  by (simp add: missed_state)

lemma missed_missedFrames:
  "processed s n \<Longrightarrow> missed n \<Longrightarrow> missedFrames (fst (runDetection s n)) = missedFrames s + 1"
  by (simp add: missed_state)

lemma missRun_missedFrames:
  "ticks (lastDetectionTime s) ns \<Longrightarrow> list_all missed ns \<Longrightarrow>
     missedFrames (fst (runLoop s ns)) = missedFrames s + length ns"
proof (induction ns arbitrary: s)
  case Nil
  then show ?case by simp
next
  case (Cons n ns)
  from Cons.prems have p: "processed s n" and m: "missed n"
    by (simp_all add: processed_def)
  let ?s = "fst (runDetection s n)"
  from Cons.prems have "ticks (lastDetectionTime ?s) ns" "list_all missed ns"
    by (simp_all add: missed_lastDetectionTime [OF p m])
  from Cons.IH [OF this] show ?case
    by (simp add: fst_runLoop_Cons missed_missedFrames [OF p m])
qed

lemma missRun_gestures:
  "ticks (lastDetectionTime s) ns \<Longrightarrow> list_all missed ns \<Longrightarrow>
     gestures (snd (runLoop s ns))
       = replicate (missedFrames s + length ns - max (missedFrames s) 5) lossSignal"
proof (induction ns arbitrary: s)
  case Nil
  then show ?case by simp
next
  case (Cons n ns)
  from Cons.prems have p: "processed s n" and m: "missed n"
    by (simp_all add: processed_def)
  let ?s = "fst (runDetection s n)"
  from Cons.prems have "ticks (lastDetectionTime ?s) ns" "list_all missed ns"
    by (simp_all add: missed_lastDetectionTime [OF p m])
  from Cons.IH [OF this]
  have ih: "gestures (snd (runLoop ?s ns))
              = replicate (missedFrames s + 1 + length ns - max (missedFrames s + 1) 5) lossSignal"
    by (simp add: missed_missedFrames [OF p m])
  show ?case
  proof (cases "5 < missedFrames s + 1")
    case True
    then have "Suc (missedFrames s + 1 + length ns - max (missedFrames s + 1) 5)
                 = missedFrames s + length (n # ns) - max (missedFrames s) 5"
      unfolding max_def by auto
    with True show ?thesis
      by (simp add: snd_runLoop_Cons gestures_append missed_gestures [OF p m] ih
               del: replicate_Suc flip: replicate_Suc)
  next
    case False
    then have "missedFrames s + 1 + length ns - max (missedFrames s + 1) 5
                 = missedFrames s + length (n # ns) - max (missedFrames s) 5"
      unfolding max_def by auto
    with False show ?thesis
      by (simp add: snd_runLoop_Cons gestures_append missed_gestures [OF p m] ih)
  qed
qed

lemma missRun_short:
  "ticks (lastDetectionTime s) ns \<Longrightarrow> list_all missed ns \<Longrightarrow> missedFrames s + length ns \<le> 5 \<Longrightarrow>
     fst (runLoop s ns)
       = s\<lparr>lastDetectionTime := (if ns = [] then lastDetectionTime s else now (last ns)),
            missedFrames := missedFrames s + length ns\<rparr>"
proof (induction ns arbitrary: s)
  case Nil
  then show ?case by simp
next
  case (Cons n ns)
  from Cons.prems have p: "processed s n" and m: "missed n"
    by (simp_all add: processed_def)
  let ?s = "fst (runDetection s n)"
  from Cons.prems have s': "?s = s\<lparr>lastDetectionTime := now n, missedFrames := missedFrames s + 1\<rparr>"
    by (simp add: missed_state [OF p m])
  from Cons.prems have "ticks (lastDetectionTime ?s) ns" "list_all missed ns"
    "missedFrames ?s + length ns \<le> 5"
    by (simp_all add: s')
  from Cons.IH [OF this] show ?case
    by (simp add: fst_runLoop_Cons s')
qed

lemma missRun_long:
  "ticks (lastDetectionTime s) ns \<Longrightarrow> list_all missed ns \<Longrightarrow> ns \<noteq> [] \<Longrightarrow>
   5 < missedFrames s + length ns \<Longrightarrow> cleared (fst (runLoop s ns))"
proof (induction ns arbitrary: s)
  case Nil
  then show ?case by simp
next
  case (Cons n ns)
  from Cons.prems have p: "processed s n" and m: "missed n"
    by (simp_all add: processed_def)
  let ?s = "fst (runDetection s n)"
  from Cons.prems have t: "ticks (lastDetectionTime ?s) ns" "list_all missed ns"
    by (simp_all add: missed_lastDetectionTime [OF p m])
  show ?case
  proof (cases "ns = []")
    case True
    with Cons.prems show ?thesis
      by (simp add: fst_runLoop_Cons missed_state [OF p m] cleared_def)
  next
    case False
    from Cons.prems have "5 < missedFrames ?s + length ns"
      by (simp add: missed_missedFrames [OF p m])
    from Cons.IH [OF t False this] show ?thesis
      by (simp add: fst_runLoop_Cons)
  qed
qed

lemma handFound_missedFrames: "missedFrames (fst (handFound s w h hand)) = 0"
  by (simp add: handFound_def Let_def split: option.splits)

lemma runLoop_append:
  "runLoop s (ms @ ns) = (fst (runLoop (fst (runLoop s ms)) ns),
                          snd (runLoop s ms) @ snd (runLoop (fst (runLoop s ms)) ns))"
  by (induction ms arbitrary: s) (simp_all add: fst_runLoop_Cons snd_runLoop_Cons prod_eq_iff)

lemma ticks_append:
  "ticks t (ms @ ns) = (ticks t ms \<and> ticks (if ms = [] then t else now (last ms)) ns)"
  by (induction ms arbitrary: t) auto

lemma missRun_lastDetectionTime:
  "ticks (lastDetectionTime s) ns \<Longrightarrow> list_all missed ns \<Longrightarrow>
     lastDetectionTime (fst (runLoop s ns)) = (if ns = [] then lastDetectionTime s else now (last ns))"
proof (induction ns arbitrary: s)
  case Nil
  then show ?case by simp
next
  case (Cons n ns)
  from Cons.prems have p: "processed s n" and m: "missed n"
    by (simp_all add: processed_def)
  let ?s = "fst (runDetection s n)"
  from Cons.prems have "ticks (lastDetectionTime ?s) ns" "list_all missed ns"
    by (simp_all add: missed_lastDetectionTime [OF p m])
  from Cons.IH [OF this] show ?case
    by (simp add: fst_runLoop_Cons missed_lastDetectionTime [OF p m])
qed

lemma found_missedFrames:
  "processed s n \<Longrightarrow> estimateHands n = Predictions (hand # ps) \<Longrightarrow>
     missedFrames (fst (runDetection s n)) = 0"
  by (simp add: runDetection_found handFound_missedFrames)

lemma found_after_misses:
  assumes "estimateHands d = Predictions (hand # ps)" and "\<not> now d - t < 60" and "ready d"
  shows "fst (runDetection (s\<lparr>lastDetectionTime := t, missedFrames := k\<rparr>) d)
           = fst (runDetection (s\<lparr>lastDetectionTime := t, missedFrames := 0\<rparr>) d)
       \<and> gestures (snd (runDetection (s\<lparr>lastDetectionTime := t, missedFrames := k\<rparr>) d))
           = gestures (snd (runDetection (s\<lparr>lastDetectionTime := t, missedFrames := 0\<rparr>) d))"
proof -
  have p: "processed (s\<lparr>lastDetectionTime := t, missedFrames := k\<rparr>) d" for k
    using assms by (simp add: processed_def)
  have "handFound (s\<lparr>lastDetectionTime := t, missedFrames := k, lastDetectionTime := now d\<rparr>)
          (videoWidth d) (videoHeight d) hand
        = handFound (s\<lparr>lastDetectionTime := t, missedFrames := 0, lastDetectionTime := now d\<rparr>)
          (videoWidth d) (videoHeight d) hand"
    by (simp add: handFound_def)
  then show ?thesis
    by (simp add: runDetection_found [OF p assms(1)] gestures_append)
qed
text \<open>What the two branches call, and what they leave alone.\<close>

lemma handFound_lastDetectionTime:
  "lastDetectionTime (fst (handFound s w h hand)) = lastDetectionTime s"
  by (simp add: handFound_def Let_def split: option.splits)

lemma handLost_lastDetectionTime: "lastDetectionTime (fst (handLost s)) = lastDetectionTime s"
  by (simp add: handLost_def Let_def)

lemma handFound_invokes: "\<not> invokes (snd (handFound s w h hand))"
  by (simp add: handFound_def Let_def split: option.splits)

lemma handLost_invokes: "\<not> invokes (snd (handLost s))"
  by (simp add: handLost_def Let_def)

lemma invokes_append: "invokes (es @ es') = (invokes es \<or> invokes es')"
  by (induction es rule: invokes.induct) simp_all

lemma handFound_calls:
  "OnGesture g st \<in> set (snd (handFound s w h hand)) \<Longrightarrow> isDetected g"
  by (auto simp: handFound_def Let_def split: option.splits)

lemma handLost_calls:
  "OnGesture g st \<in> set (snd (handLost s)) \<Longrightarrow> g = lossSignal \<and> cleared st \<and> st = fst (handLost s)"
  by (auto simp: handLost_def Let_def lossSignal_def cleared_def split: if_splits)

lemma runDetection_calls:
  assumes "OnGesture g st \<in> set (snd (runDetection s n))"
  shows "isDetected g \<or> (g = lossSignal \<and> cleared st \<and> st = fst (runDetection s n))"
proof (cases "processed s n")
  case False
  with assms show ?thesis by (simp add: runDetection_skip)
next
  case True
  show ?thesis
  proof (cases "estimateHands n")
    case Throws
    with assms True show ?thesis by (simp add: runDetection_throws)
  next
    case (Predictions ps)
    show ?thesis
    proof (cases ps)
      case Nil
      with Predictions have m: "missed n" by (simp add: missed_def)
      from assms show ?thesis
        by (auto simp: runDetection_missed [OF True m] dest: handLost_calls)
    next
      case (Cons hand ps')
      with Predictions have e: "estimateHands n = Predictions (hand # ps')" by simp
      from assms show ?thesis
        by (auto simp: runDetection_found [OF True e] dest: handFound_calls)
    qed
  qed
qed

lemma runDetection_invokes: "invokes (snd (runDetection s n)) = processed s n"
  by (simp add: runDetection_def processed_def Let_def split: estimate.splits)

lemma runDetection_lastDetectionTime:
  "lastDetectionTime (fst (runDetection s n)) = (if processed s n then now n else lastDetectionTime s)"
  by (simp add: runDetection_def processed_def Let_def handFound_lastDetectionTime
        handLost_lastDetectionTime split: estimate.splits)

lemma runDetection_first_call:
  assumes "processed s n"
  shows "\<exists>es. snd (runDetection s n) = EstimateHands (s\<lparr>lastDetectionTime := now n\<rparr>) # es
            \<and> \<not> invokes es"
  using assms
  by (simp add: runDetection_def processed_def Let_def invokes_append handFound_invokes
        handLost_invokes split: estimate.splits)

lemma invokedAt_after_last:
  "t \<in> set (invokedAt s ns) \<Longrightarrow> 60 \<le> t - lastDetectionTime s"
proof (induction ns arbitrary: s)
  case Nil
  then show ?case by simp
next
  case (Cons n ns)
  show ?case
  proof (cases "processed s n")
    case True
    from Cons.prems True
    have "t = now n \<or> t \<in> set (invokedAt (fst (runDetection s n)) ns)"
      by (simp add: Let_def runDetection_invokes)
    then show ?thesis
    proof
      assume "t = now n"
      with True show ?thesis by (simp add: processed_def)
    next
      assume "t \<in> set (invokedAt (fst (runDetection s n)) ns)"
      from Cons.IH [OF this] True show ?thesis
        by (simp add: runDetection_lastDetectionTime processed_def)
    qed
  next
    case False
    with Cons.prems have "t \<in> set (invokedAt s ns)"
      by (simp add: Let_def runDetection_invokes runDetection_skip)
    from Cons.IH [OF this] show ?thesis .
  qed
qed

lemma invokedAt_spaced: "sorted_wrt (\<lambda>a b. 60 \<le> b - a) (invokedAt s ns)"
proof (induction ns arbitrary: s)
  case Nil
  then show ?case by simp
next
  case (Cons n ns)
  show ?case
  proof (cases "processed s n")
    case True
    have "\<forall>t \<in> set (invokedAt (fst (runDetection s n)) ns). 60 \<le> t - now n"
      using invokedAt_after_last [of _ "fst (runDetection s n)" ns] True
      by (simp add: runDetection_lastDetectionTime)
    with Cons.IH [of "fst (runDetection s n)"] True show ?thesis
      by (simp add: Let_def runDetection_invokes)
  next
    case False
    with Cons.IH [of s] show ?thesis
      by (simp add: Let_def runDetection_invokes runDetection_skip)
  qed
qed

lemma runLoop_calls:
  "OnGesture g st \<in> set (snd (runLoop s ns)) \<Longrightarrow>
     isDetected g \<or> (g = lossSignal \<and> cleared st)"
proof (induction ns arbitrary: s)
  case Nil
  then show ?case by simp
next
  case (Cons n ns)
  from Cons.prems
  have "OnGesture g st \<in> set (snd (runDetection s n))
      \<or> OnGesture g st \<in> set (snd (runLoop (fst (runDetection s n)) ns))"
    by (simp add: snd_runLoop_Cons)
  then show ?case
  proof
    assume "OnGesture g st \<in> set (snd (runDetection s n))"
    from runDetection_calls [OF this] show ?thesis by blast
  next
    assume "OnGesture g st \<in> set (snd (runLoop (fst (runDetection s n)) ns))"
    from Cons.IH [OF this] show ?thesis .
  qed
qed

text \<open>The bound on the buffers.\<close>

lemma handFound_bounded: "bounded s \<Longrightarrow> bounded (fst (handFound s w h hand))"
  by (simp add: handFound_def Let_def bounded_def length_pushShift split: option.splits)

lemma handLost_bounded: "bounded s \<Longrightarrow> bounded (fst (handLost s))"
  by (simp add: handLost_def Let_def bounded_def)

lemma runDetection_bounded: "bounded s \<Longrightarrow> bounded (fst (runDetection s n))"
proof -
  assume b: "bounded s"
  then have b0: "bounded (s\<lparr>lastDetectionTime := now n\<rparr>)"
    by (simp add: bounded_def)
  show ?thesis
    using b b0 handFound_bounded [OF b0] handLost_bounded [OF b0]
    by (simp add: runDetection_def Let_def split: estimate.splits)
qed

lemma runLoop_bounded: "bounded s \<Longrightarrow> bounded (fst (runLoop s ns))"
  by (induction ns arbitrary: s) (simp_all add: fst_runLoop_Cons runDetection_bounded)

lemma position_pushed:
  assumes "processed s n" and "inputPosition n = Some p"
  shows "posHistory (fst (runDetection s n)) = pushShift 8 p (posHistory s)"
proof -
  from assms(2) obtain hand ps wrist where e: "estimateHands n = Predictions (hand # ps)"
    and w: "landmarkAt (landmarks hand) 0 = Some wrist"
    and p: "p = rawPosition wrist (videoWidth n) (videoHeight n)"
    by (auto simp: inputPosition_def split: estimate.splits list.splits option.splits)
  show ?thesis
    by (simp add: runDetection_found [OF assms(1) e] handFound_def w p Let_def split: option.splits)
qed

lemma ratio_pushed:
  assumes "processed s n" and "inputRatio n = Some r"
  shows "ratioHistory (fst (runDetection s n)) = pushShift 5 r (ratioHistory s)"
proof -
  from assms(2) obtain p where "inputPosition n = Some p"
    by (auto simp: inputPosition_def inputRatio_def split: estimate.splits list.splits option.splits)
  from runDetection_observed [OF assms(1) this assms(2)] show ?thesis
    by (simp add: afterObservation_def)
qed

text \<open>The sample hand.\<close>

lemma getDist_sample: "getDist (320, 240, 0) (320 + d, 240, 0) = \<bar>d\<bar>"
  by (simp add: getDist_def coord0_def coord1_def)

lemma rawRatio_sampleHand:
  "rawRatio (320, 240, 0) (sampleHand b f) = Some (\<bar>f\<bar> / orOne \<bar>b\<bar>)"
proof -
  have "distLoop (320, 240, 0) (sampleHand b f) 0 0 0
          = Some (\<bar>b\<bar> + \<bar>b\<bar> + \<bar>b\<bar> + \<bar>b\<bar>, \<bar>f\<bar> + \<bar>f\<bar> + \<bar>f\<bar> + \<bar>f\<bar>)"
    using getDist_sample [of b] getDist_sample [of f]
    by (subst distLoop_complete) (simp_all add: length_sampleHand, simp_all add: sampleHand_def Let_def)
  then show ?thesis
    by (simp add: rawRatio_def)
qed

lemma inputPosition_sampleHand: "inputPosition (handAt t (sampleHand b f)) = Some (0, 0)"
  by (simp add: inputPosition_def handAt_def landmarkAt_def length_sampleHand)
     (simp add: sampleHand_def Let_def rawPosition_def coord0_def coord1_def)

lemma inputRatio_sampleHand:
  "inputRatio (handAt t (sampleHand b f)) = Some (\<bar>f\<bar> / orOne \<bar>b\<bar>)"
proof -
  have "sampleHand b f ! 0 = (320, 240, 0)"
    by (simp add: sampleHand_def Let_def)
  then show ?thesis
    by (simp add: inputRatio_def handAt_def landmarkAt_def length_sampleHand rawRatio_sampleHand)
qed




lemma handAt_fields:
  "ready (handAt t ls)" "now (handAt t ls) = t"
  "videoWidth (handAt t ls) = 640" "videoHeight (handAt t ls) = 480"
  by (simp_all add: handAt_def)

text \<open>A buffer fed with one value.\<close>

lemma drop_pushShift:
  assumes "length h \<le> cap"
  shows "drop (length (pushShift cap v h) + k - cap) (pushShift cap v h @ replicate k v)
           = drop (length h + Suc k - cap) (h @ replicate (Suc k) v)"
proof (cases "length h < cap")
  case True
  then show ?thesis
    by (simp add: pushShift_room)
next
  case False
  with assms have full: "length h = cap" by simp
  show ?thesis
  proof (cases h)
    case Nil
    with full show ?thesis by (simp add: pushShift_def)
  next
    case (Cons a as)
    with full show ?thesis
      by (simp add: pushShift_def Let_def)
  qed
qed

lemma drop_constant:
  "cap \<le> k \<Longrightarrow> drop (length h + k - cap) (h @ replicate k v) = replicate cap v"
  by simp

lemma smoothedRatio_constant:
  assumes "0 < k" and "real k \<le> 2 ^ 53"
  shows "\<bar>smoothedRatio (replicate k c) - c\<bar> \<le> (real k + 2) * (1 / 2 ^ 53) * \<bar>c\<bar>"
  using mean_error [OF assms, of c] by (simp add: smoothedRatio_def)

lemma avgPos_components:
  "foldl (\<lambda>acc curr. (rnd (fst acc + fst curr), rnd (snd acc + snd curr))) (a, b) h
     = (foldl (\<lambda>a b. rnd (a + b)) a (map fst h), foldl (\<lambda>a b. rnd (a + b)) b (map snd h))"
  by (induction h arbitrary: a b) simp_all

lemma smoothedPos_components:
  "smoothedPos h = (smoothedRatio (map fst h), smoothedRatio (map snd h))"
  by (simp add: smoothedPos_def smoothedRatio_def avgPos_def avgPos_components)

lemma smoothedPos_constant:
  assumes "0 < k" and "real k \<le> 2 ^ 53"
  shows "\<bar>fst (smoothedPos (replicate k p)) - fst p\<bar> \<le> (real k + 2) * (1 / 2 ^ 53) * \<bar>fst p\<bar>"
    and "\<bar>snd (smoothedPos (replicate k p)) - snd p\<bar> \<le> (real k + 2) * (1 / 2 ^ 53) * \<bar>snd p\<bar>"
  using smoothedRatio_constant [OF assms, of "fst p"] smoothedRatio_constant [OF assms, of "snd p"]
  by (simp_all add: smoothedPos_components)

lemma ticks_lastDetectionTime:
  "ticks (lastDetectionTime s) ns \<Longrightarrow>
     lastDetectionTime (fst (runLoop s ns)) = (if ns = [] then lastDetectionTime s else now (last ns))"
proof (induction ns arbitrary: s)
  case Nil
  then show ?case by simp
next
  case (Cons n ns)
  from Cons.prems have p: "processed s n"
    by (simp add: processed_def)
  then have l: "lastDetectionTime (fst (runDetection s n)) = now n"
    by (simp add: runDetection_lastDetectionTime)
  with Cons.prems have "ticks (lastDetectionTime (fst (runDetection s n))) ns"
    by simp
  from Cons.IH [OF this] show ?case
    by (simp add: fst_runLoop_Cons l)
qed

lemma ratio_constantRun:
  "ticks (lastDetectionTime s) ns \<Longrightarrow> list_all (\<lambda>n. inputRatio n = Some r) ns \<Longrightarrow>
   length (ratioHistory s) \<le> 5 \<Longrightarrow>
     ratioHistory (fst (runLoop s ns))
       = drop (length (ratioHistory s) + length ns - 5) (ratioHistory s @ replicate (length ns) r)"
proof (induction ns arbitrary: s)
  case Nil
  then show ?case by simp
next
  case (Cons n ns)
  let ?s = "fst (runDetection s n)"
  from Cons.prems have p: "processed s n" and r: "inputRatio n = Some r"
    by (simp_all add: processed_def)
  have h: "ratioHistory ?s = pushShift 5 r (ratioHistory s)"
    by (rule ratio_pushed [OF p r])
  from Cons.prems p have "ticks (lastDetectionTime ?s) ns" "list_all (\<lambda>n. inputRatio n = Some r) ns"
    "length (ratioHistory ?s) \<le> 5"
    by (simp_all add: runDetection_lastDetectionTime h length_pushShift)
  from Cons.IH [OF this] drop_pushShift [OF Cons.prems(3), of r "length ns"] show ?case
    by (simp only: fst_runLoop_Cons h length_Cons)
qed

lemma position_constantRun:
  "ticks (lastDetectionTime s) ns \<Longrightarrow> list_all (\<lambda>n. inputPosition n = Some p) ns \<Longrightarrow>
   length (posHistory s) \<le> 8 \<Longrightarrow>
     posHistory (fst (runLoop s ns))
       = drop (length (posHistory s) + length ns - 8) (posHistory s @ replicate (length ns) p)"
proof (induction ns arbitrary: s)
  case Nil
  then show ?case by simp
next
  case (Cons n ns)
  let ?s = "fst (runDetection s n)"
  from Cons.prems have pr: "processed s n" and i: "inputPosition n = Some p"
    by (simp_all add: processed_def)
  have h: "posHistory ?s = pushShift 8 p (posHistory s)"
    by (rule position_pushed [OF pr i])
  from Cons.prems pr have "ticks (lastDetectionTime ?s) ns" "list_all (\<lambda>n. inputPosition n = Some p) ns"
    "length (posHistory ?s) \<le> 8"
    by (simp_all add: runDetection_lastDetectionTime h length_pushShift)
  from Cons.IH [OF this] drop_pushShift [OF Cons.prems(3), of p "length ns"] show ?case
    by (simp only: fst_runLoop_Cons h length_Cons)
qed

lemma observed_gesture:
  assumes "processed s n" and "observed n"
  shows "gestures (snd (runDetection s n))
           = [\<lparr>isOpen = isCurrentlyOpen (fst (runDetection s n)),
               position = smoothedPos (posHistory (fst (runDetection s n))),
               isDetected = True\<rparr>]"
proof -
  from observed_inputs [OF assms(2)] obtain p r
    where "inputPosition n = Some p" and "inputRatio n = Some r" by blast
  from runDetection_observed [OF assms(1) this] show ?thesis
    by simp
qed

lemma observedRun_last_gesture:
  assumes "ticks (lastDetectionTime s) ns" and "list_all observed ns" and "ns \<noteq> []"
  shows "gestures (snd (runLoop s ns)) \<noteq> []
       \<and> position (last (gestures (snd (runLoop s ns)))) = smoothedPos (posHistory (fst (runLoop s ns)))"
proof -
  from assms(3) obtain ms n where ns: "ns = ms @ [n]"
    by (metis append_butlast_last_id)
  let ?m = "fst (runLoop s ms)"
  from assms(1) have t: "ticks (lastDetectionTime s) ms"
    by (simp add: ns ticks_append)
  from assms(1) have p: "processed ?m n"
    by (simp add: ns ticks_append processed_def ticks_lastDetectionTime [OF t])
  from assms(2) have o: "observed n"
    by (simp add: ns)
  show ?thesis
    by (simp add: ns runLoop_append fst_runLoop_Cons snd_runLoop_Cons gestures_append
          observed_gesture [OF p o])
qed
text \<open>The sample frames of the wide video.\<close>

lemma length_pointHand: "length (pointHand wx) = 21"
  by (simp add: pointHand_def)

lemma observed_wideAt: "observed (wideAt t ls) = (length ls = 21)"
  by (simp add: observed_def wideAt_def)

lemma wideAt_fields:
  "ready (wideAt t ls)" "now (wideAt t ls) = t"
  "videoWidth (wideAt t ls) = 1024" "videoHeight (wideAt t ls) = 768"
  by (simp_all add: wideAt_def)

lemma inputPosition_pointHand:
  "inputPosition (wideAt t (pointHand wx)) = Some (1 - wx / 512, 0)"
  by (simp add: inputPosition_def wideAt_def landmarkAt_def pointHand_def rawPosition_def
        coord0_def coord1_def)

section \<open>Properties\<close>

subsection \<open>Openness ratio\<close>

text \<open>
  C8. For every observation with 21 landmarks the loop over the four fingers completes, the
  denominator \<open>avgBaseDist || 1\<close> of the ratio is not zero (it is 1 when the average
  distance of the base joints from the wrist is 0), and the ratio is not negative.
\<close>

theorem C8_ratio_guarded:
  assumes "observed n"
  shows "\<exists>hand ps totalBaseDist totalTipDist.
           estimateHands n = Predictions (hand # ps)
         \<and> distLoop (landmarks hand ! 0) (landmarks hand) 0 0 0 = Some (totalBaseDist, totalTipDist)
         \<and> orOne (totalBaseDist / 4) \<noteq> 0
         \<and> (totalBaseDist / 4 = 0 \<longrightarrow> orOne (totalBaseDist / 4) = 1)
         \<and> inputRatio n = Some ((totalTipDist / 4) / orOne (totalBaseDist / 4))
         \<and> 0 \<le> (totalTipDist / 4) / orOne (totalBaseDist / 4)"
proof -
  from assms obtain hand ps where e: "estimateHands n = Predictions (hand # ps)"
    and l: "length (landmarks hand) = 21"
    by (auto simp: observed_def split: estimate.splits list.splits)
  let ?ls = "landmarks hand"
  from l have w: "landmarkAt ?ls 0 = Some (?ls ! 0)"
    by (simp add: landmarkAt_def)
  from l have l': "21 \<le> length ?ls" by simp
  obtain b t where d: "distLoop (?ls ! 0) ?ls 0 0 0 = Some (b, t)"
    using distLoop_complete [OF l'] by blast
  from d have r: "rawRatio (?ls ! 0) ?ls = Some ((t / 4) / orOne (b / 4))"
    by (simp add: rawRatio_def)
  from rawRatio_complete [OF l', of "?ls ! 0"] r have nn: "0 \<le> (t / 4) / orOne (b / 4)"
    by auto
  have i: "inputRatio n = Some ((t / 4) / orOne (b / 4))"
    by (simp add: inputRatio_def e w r)
  have g: "b / 4 = 0 \<longrightarrow> orOne (b / 4) = 1"
    by (simp add: orOne_def)
  from e d i nn g orOne_nonzero [of "b / 4"] show ?thesis by blast
qed

theorem C8_ratio_guarded_witness:
  "observed (handAt 60 (sampleHand 0 3))
   \<and> (\<exists>r. inputRatio (handAt 60 (sampleHand 0 3)) = Some r \<and> 0 \<le> r)"
proof -
  have o: "observed (handAt 60 (sampleHand 0 3))"
    by (simp add: observed_handAt length_sampleHand)
  from C8_ratio_guarded [OF o] show ?thesis using o by blast
qed

subsection \<open>A failing pose model\<close>

text \<open>
  C5. When \<open>estimateHands\<close> throws on a tick, the error is swallowed: the counter of missed
  frames, both history buffers and the hysteresis state are what they were, and
  \<open>onGesture\<close> is not called. The tick leaves its trace in the throttle only: the last
  detection time was set before the call.
\<close>

theorem C5_failure_absorbed:
  assumes "processed s n" and "estimateHands n = Throws"
  shows "missedFrames (fst (runDetection s n)) = missedFrames s
       \<and> posHistory (fst (runDetection s n)) = posHistory s
       \<and> ratioHistory (fst (runDetection s n)) = ratioHistory s
       \<and> isCurrentlyOpen (fst (runDetection s n)) = isCurrentlyOpen s
       \<and> gestures (snd (runDetection s n)) = []
       \<and> fst (runDetection s n) = s\<lparr>lastDetectionTime := now n\<rparr>"
  by (simp add: runDetection_throws [OF assms])

theorem C5_failure_absorbed_witness:
  "processed initRefs (throwAt 60) \<and> estimateHands (throwAt 60) = Throws
   \<and> missedFrames (fst (runDetection initRefs (throwAt 60))) = 0
   \<and> gestures (snd (runDetection initRefs (throwAt 60))) = []"
proof -
  have p: "processed initRefs (throwAt 60)"
    by (simp add: processed_def initRefs_def throwAt_def)
  have e: "estimateHands (throwAt 60) = Throws"
    by (simp add: throwAt_def)
  from C5_failure_absorbed [OF p e] show ?thesis using p e
    by (simp add: initRefs_def)
qed

subsection \<open>Loss of the hand\<close>

text \<open>
  C1 (as the code has it). In a run of consecutive missed ticks that starts with the counter
  at 0, \<open>onGesture\<close> is not called on the first five misses, and it is called with
  \<open>{isOpen: false, position: {0, 0}, isDetected: false}\<close> on the sixth miss and again on
  every later miss of the run, once per tick: a run of \<open>k\<close> misses makes \<open>k - 5\<close> such calls.
\<close>

theorem C1_loss_signal_from_sixth_miss:
  assumes "missedFrames s = 0" and "ticks (lastDetectionTime s) (ms @ [n])"
    and "list_all missed (ms @ [n])"
  shows "gestures (snd (runDetection (fst (runLoop s ms)) n))
           = (if 5 \<le> length ms then [lossSignal] else [])
       \<and> gestures (snd (runLoop s (ms @ [n]))) = replicate (length ms + 1 - 5) lossSignal"
proof -
  from assms(2) have t: "ticks (lastDetectionTime s) ms"
    by (simp add: ticks_append)
  from assms(3) have m: "list_all missed ms" and mn: "missed n"
    by simp_all
  from assms(2) have "processed (fst (runLoop s ms)) n"
    by (simp add: ticks_append processed_def missRun_lastDetectionTime [OF t m])
  from missed_gestures [OF this mn] assms(1)
  have one: "gestures (snd (runDetection (fst (runLoop s ms)) n))
               = (if 5 \<le> length ms then [lossSignal] else [])"
    by (simp add: missRun_missedFrames [OF t m])
  from missRun_gestures [OF assms(2,3)] assms(1)
  have "gestures (snd (runLoop s (ms @ [n]))) = replicate (length ms + 1 - 5) lossSignal"
    by simp
  with one show ?thesis by simp
qed

theorem C1_loss_signal_from_sixth_miss_witness:
  "missedFrames initRefs = 0
   \<and> ticks (lastDetectionTime initRefs) (map missAt [60, 120, 180, 240, 300] @ [missAt 360])
   \<and> list_all missed (map missAt [60, 120, 180, 240, 300] @ [missAt 360])
   \<and> gestures (snd (runDetection (fst (runLoop initRefs (map missAt [60, 120, 180, 240, 300])))
                                   (missAt 360))) = [lossSignal]"
proof -
  have h1: "missedFrames initRefs = 0"
    by (simp add: initRefs_def)
  have h2: "ticks (lastDetectionTime initRefs) (map missAt [60, 120, 180, 240, 300] @ [missAt 360])"
    by (simp add: initRefs_def missAt_def)
  have h3: "list_all missed (map missAt [60, 120, 180, 240, 300] @ [missAt 360])"
    by (simp add: missed_def missAt_def)
  from C1_loss_signal_from_sixth_miss [OF h1 h2 h3] show ?thesis using h1 h2 h3
    by simp
qed

text \<open>
  The signal is not emitted once only: a run of seven misses from the initial state calls
  \<open>onGesture\<close> with the loss signal twice, on the sixth and on the seventh miss.
\<close>

theorem C1_counterexample:
  "gestures (snd (runLoop initRefs (map missAt [60, 120, 180, 240, 300, 360, 420])))
     = [lossSignal, lossSignal]
   \<and> gestures (snd (runDetection (fst (runLoop initRefs (map missAt [60, 120, 180, 240, 300, 360])))
                                   (missAt 420))) = [lossSignal]"
  by (simp add: runLoop.simps(2) runDetection_def handLost_def missAt_def initRefs_def Let_def
        lossSignal_def)

text \<open>
  C3 (as the code has it). In a run of missed ticks that starts with the counter of missed
  frames at 0, as it is initially and after every tick on which a hand is reported, up to
  five misses leave both history buffers and the hysteresis state as they were and call
  nothing, so that a detected tick after them gives what it would have given without them;
  from the sixth miss on, both buffers are empty and the hysteresis state is closed.
\<close>

theorem C3_debounce:
  assumes "missedFrames s = 0" and "ticks (lastDetectionTime s) ns" and "list_all missed ns"
    and "ns \<noteq> []"
  shows "(length ns \<le> 5 \<longrightarrow>
            posHistory (fst (runLoop s ns)) = posHistory s
          \<and> ratioHistory (fst (runLoop s ns)) = ratioHistory s
          \<and> isCurrentlyOpen (fst (runLoop s ns)) = isCurrentlyOpen s
          \<and> gestures (snd (runLoop s ns)) = []
          \<and> (ticks (now (last ns)) [d] \<and> estimateHands d = Predictions (hand # ps) \<longrightarrow>
                fst (runLoop s (ns @ [d])) = fst (runDetection (s\<lparr>lastDetectionTime := now (last ns)\<rparr>) d)
              \<and> gestures (snd (runLoop s (ns @ [d])))
                  = gestures (snd (runDetection (s\<lparr>lastDetectionTime := now (last ns)\<rparr>) d))))
       \<and> (6 \<le> length ns \<longrightarrow>
            posHistory (fst (runLoop s ns)) = []
          \<and> ratioHistory (fst (runLoop s ns)) = []
          \<and> \<not> isCurrentlyOpen (fst (runLoop s ns)))"
proof (intro conjI impI)
  assume le: "length ns \<le> 5"
  with assms(1) have "missedFrames s + length ns \<le> 5" by simp
  from missRun_short [OF assms(2,3) this] assms(1,4)
  have st: "fst (runLoop s ns) = s\<lparr>lastDetectionTime := now (last ns), missedFrames := length ns\<rparr>"
    by simp
  show "posHistory (fst (runLoop s ns)) = posHistory s"
    and "ratioHistory (fst (runLoop s ns)) = ratioHistory s"
    and "isCurrentlyOpen (fst (runLoop s ns)) = isCurrentlyOpen s"
    by (simp_all add: st)
  from missRun_gestures [OF assms(2,3)] assms(1) le
  show g: "gestures (snd (runLoop s ns)) = []" by simp
  assume d: "ticks (now (last ns)) [d] \<and> estimateHands d = Predictions (hand # ps)"
  then have e: "estimateHands d = Predictions (hand # ps)" and t: "\<not> now d - now (last ns) < 60"
    and r: "ready d" by simp_all
  have z: "s\<lparr>lastDetectionTime := now (last ns), missedFrames := 0\<rparr>
             = s\<lparr>lastDetectionTime := now (last ns)\<rparr>"
    using assms(1) by simp
  from found_after_misses [where s = s and k = "length ns", OF e t r]
  show "fst (runLoop s (ns @ [d])) = fst (runDetection (s\<lparr>lastDetectionTime := now (last ns)\<rparr>) d)"
    and "gestures (snd (runLoop s (ns @ [d])))
           = gestures (snd (runDetection (s\<lparr>lastDetectionTime := now (last ns)\<rparr>) d))"
    by (simp_all add: runLoop_append fst_runLoop_Cons snd_runLoop_Cons st z g gestures_append)
next
  assume "6 \<le> length ns"
  with assms(1) have "5 < missedFrames s + length ns" by simp
  from missRun_long [OF assms(2,3,4) this]
  show "posHistory (fst (runLoop s ns)) = []"
    and "ratioHistory (fst (runLoop s ns)) = []"
    and "\<not> isCurrentlyOpen (fst (runLoop s ns))"
    by (simp_all add: cleared_def)
qed

theorem C3_debounce_witness:
  "missedFrames (initRefs\<lparr>isCurrentlyOpen := True, ratioHistory := [2], posHistory := [(1 / 2, 1 / 2)]\<rparr>) = 0
   \<and> ticks 0 (map missAt [60, 120, 180, 240, 300])
   \<and> list_all missed (map missAt [60, 120, 180, 240, 300])
   \<and> posHistory (fst (runLoop
        (initRefs\<lparr>isCurrentlyOpen := True, ratioHistory := [2], posHistory := [(1 / 2, 1 / 2)]\<rparr>)
        (map missAt [60, 120, 180, 240, 300]))) = [(1 / 2, 1 / 2)]
   \<and> ratioHistory (fst (runLoop
        (initRefs\<lparr>isCurrentlyOpen := True, ratioHistory := [2], posHistory := [(1 / 2, 1 / 2)]\<rparr>)
        (map missAt [60, 120, 180, 240, 300]))) = [2]
   \<and> isCurrentlyOpen (fst (runLoop
        (initRefs\<lparr>isCurrentlyOpen := True, ratioHistory := [2], posHistory := [(1 / 2, 1 / 2)]\<rparr>)
        (map missAt [60, 120, 180, 240, 300])))
   \<and> ticks 300 [handAt 360 (sampleHand 2 4)]
   \<and> fst (runLoop
        (initRefs\<lparr>isCurrentlyOpen := True, ratioHistory := [2], posHistory := [(1 / 2, 1 / 2)]\<rparr>)
        (map missAt [60, 120, 180, 240, 300] @ [handAt 360 (sampleHand 2 4)]))
       = fst (runDetection
        (initRefs\<lparr>isCurrentlyOpen := True, ratioHistory := [2], posHistory := [(1 / 2, 1 / 2)],
                   lastDetectionTime := 300\<rparr>) (handAt 360 (sampleHand 2 4)))
   \<and> ticks 0 (map missAt [60, 120, 180, 240, 300, 360])
   \<and> list_all missed (map missAt [60, 120, 180, 240, 300, 360])
   \<and> posHistory (fst (runLoop
        (initRefs\<lparr>isCurrentlyOpen := True, ratioHistory := [2], posHistory := [(1 / 2, 1 / 2)]\<rparr>)
        (map missAt [60, 120, 180, 240, 300, 360]))) = []
   \<and> ratioHistory (fst (runLoop
        (initRefs\<lparr>isCurrentlyOpen := True, ratioHistory := [2], posHistory := [(1 / 2, 1 / 2)]\<rparr>)
        (map missAt [60, 120, 180, 240, 300, 360]))) = []
   \<and> \<not> isCurrentlyOpen (fst (runLoop
        (initRefs\<lparr>isCurrentlyOpen := True, ratioHistory := [2], posHistory := [(1 / 2, 1 / 2)]\<rparr>)
        (map missAt [60, 120, 180, 240, 300, 360])))"
proof -
  let ?s = "initRefs\<lparr>isCurrentlyOpen := True, ratioHistory := [2], posHistory := [(1 / 2, 1 / 2)]\<rparr>"
  let ?five = "map missAt [60, 120, 180, 240, 300]"
  let ?six = "map missAt [60, 120, 180, 240, 300, 360]"
  let ?d = "handAt 360 (sampleHand 2 4)"
  have h1: "missedFrames ?s = 0"
    by (simp add: initRefs_def)
  have z: "lastDetectionTime ?s = 0"
    by (simp add: initRefs_def)
  have t5: "ticks (lastDetectionTime ?s) ?five" and t6: "ticks (lastDetectionTime ?s) ?six"
    by (simp_all add: initRefs_def missAt_def)
  have m5: "list_all missed ?five" and m6: "list_all missed ?six"
    by (simp_all add: missed_def missAt_def)
  have n5: "?five \<noteq> []" and n6: "?six \<noteq> []"
    by simp_all
  have l5: "length ?five \<le> 5" and l6: "6 \<le> length ?six"
    by simp_all
  have l: "now (last ?five) = 300"
    by (simp add: missAt_def)
  have td: "ticks (now (last ?five)) [?d]"
    by (simp add: missAt_def handAt_def)
  have e: "estimateHands ?d = Predictions (\<lparr>landmarks = sampleHand 2 4\<rparr> # [])"
    by (simp add: handAt_def)
  from C3_debounce [OF h1 t5 m5 n5, of ?d "\<lparr>landmarks = sampleHand 2 4\<rparr>" "[]"] l5 td e
  have short: "posHistory (fst (runLoop ?s ?five)) = posHistory ?s
      \<and> ratioHistory (fst (runLoop ?s ?five)) = ratioHistory ?s
      \<and> isCurrentlyOpen (fst (runLoop ?s ?five)) = isCurrentlyOpen ?s
      \<and> fst (runLoop ?s (?five @ [?d]))
          = fst (runDetection (?s\<lparr>lastDetectionTime := now (last ?five)\<rparr>) ?d)"
    by blast
  from C3_debounce [OF h1 t6 m6 n6, of ?d "\<lparr>landmarks = sampleHand 2 4\<rparr>" "[]"] l6
  have long: "posHistory (fst (runLoop ?s ?six)) = []
      \<and> ratioHistory (fst (runLoop ?s ?six)) = []
      \<and> \<not> isCurrentlyOpen (fst (runLoop ?s ?six))"
    by blast
  from short long h1 t5 t6 m5 m6 td show ?thesis
    by (simp only: l z) simp
qed

text \<open>
  Without the condition on the counter the threshold is not at the sixth miss of the run. A
  tick on which the pose model throws leaves the counter as it is: after one miss and one
  such tick the counter is 1 and the buffers are untouched, and the fifth miss of the run
  that follows takes the counter to 6, empties both buffers, closes the hysteresis state
  and calls \<open>onGesture\<close> with the loss signal.
\<close>

theorem C3_counterexample:
  "posHistory (fst (runLoop
      (initRefs\<lparr>isCurrentlyOpen := True, ratioHistory := [2], posHistory := [(1 / 2, 1 / 2)]\<rparr>)
      [missAt 60, throwAt 120])) = [(1 / 2, 1 / 2)]
   \<and> missedFrames (fst (runLoop
      (initRefs\<lparr>isCurrentlyOpen := True, ratioHistory := [2], posHistory := [(1 / 2, 1 / 2)]\<rparr>)
      [missAt 60, throwAt 120])) = 1
   \<and> list_all missed (map missAt [180, 240, 300, 360, 420])
   \<and> posHistory (fst (runLoop
      (initRefs\<lparr>isCurrentlyOpen := True, ratioHistory := [2], posHistory := [(1 / 2, 1 / 2)]\<rparr>)
      ([missAt 60, throwAt 120] @ map missAt [180, 240, 300, 360, 420]))) = []
   \<and> ratioHistory (fst (runLoop
      (initRefs\<lparr>isCurrentlyOpen := True, ratioHistory := [2], posHistory := [(1 / 2, 1 / 2)]\<rparr>)
      ([missAt 60, throwAt 120] @ map missAt [180, 240, 300, 360, 420]))) = []
   \<and> \<not> isCurrentlyOpen (fst (runLoop
      (initRefs\<lparr>isCurrentlyOpen := True, ratioHistory := [2], posHistory := [(1 / 2, 1 / 2)]\<rparr>)
      ([missAt 60, throwAt 120] @ map missAt [180, 240, 300, 360, 420])))
   \<and> gestures (snd (runLoop
      (initRefs\<lparr>isCurrentlyOpen := True, ratioHistory := [2], posHistory := [(1 / 2, 1 / 2)]\<rparr>)
      ([missAt 60, throwAt 120] @ map missAt [180, 240, 300, 360, 420]))) = [lossSignal]"
  by (simp add: runLoop.simps(2) runDetection_def handLost_def missAt_def throwAt_def initRefs_def
        Let_def lossSignal_def missed_def)

text \<open>
  C4 (as the code has it). The counter of missed frames is set to 0 on every tick on which
  the pose model reports a hand. It is not reset when the loss is confirmed: every missed
  tick adds 1 to it, the sixth and the later ones included, until the next observation.
\<close>

theorem C4_counter:
  "(processed s n \<and> estimateHands n = Predictions (hand # ps) \<longrightarrow>
      missedFrames (fst (runDetection s n)) = 0)
 \<and> (ticks (lastDetectionTime s) ns \<and> list_all missed ns \<longrightarrow>
      missedFrames (fst (runLoop s ns)) = missedFrames s + length ns)"
  by (simp add: found_missedFrames missRun_missedFrames)

theorem C4_counter_witness:
  "processed initRefs (handAt 60 (sampleHand 2 4))
   \<and> missedFrames (fst (runDetection initRefs (handAt 60 (sampleHand 2 4)))) = 0
   \<and> ticks (lastDetectionTime initRefs) (map missAt [60, 120])
   \<and> list_all missed (map missAt [60, 120])
   \<and> missedFrames (fst (runLoop initRefs (map missAt [60, 120]))) = 2"
proof -
  have h1: "processed initRefs (handAt 60 (sampleHand 2 4))"
    by (simp add: processed_def initRefs_def handAt_def)
  have h2: "estimateHands (handAt 60 (sampleHand 2 4))
              = Predictions (\<lparr>landmarks = sampleHand 2 4\<rparr> # [])"
    by (simp add: handAt_def)
  have h3: "ticks (lastDetectionTime initRefs) (map missAt [60, 120])"
    by (simp add: initRefs_def missAt_def)
  have h4: "list_all missed (map missAt [60, 120])"
    by (simp add: missed_def missAt_def)
  from C4_counter [of initRefs "handAt 60 (sampleHand 2 4)" "\<lparr>landmarks = sampleHand 2 4\<rparr>" "[]"
                      "map missAt [60, 120]"]
  show ?thesis using h1 h2 h3 h4
    by (simp add: initRefs_def)
qed

text \<open>
  The counter is not reset by the confirmed loss: the sixth miss of a run from the initial
  state confirms the loss and leaves the counter at 6, and the two misses after it take it
  to 7 and 8.
\<close>

theorem C4_counterexample:
  "gestures (snd (runLoop initRefs (map missAt [60, 120, 180, 240, 300, 360]))) = [lossSignal]
   \<and> missedFrames (fst (runLoop initRefs (map missAt [60, 120, 180, 240, 300, 360]))) = 6
   \<and> missedFrames (fst (runLoop initRefs (map missAt [60, 120, 180, 240, 300, 360, 420]))) = 7
   \<and> missedFrames (fst (runLoop initRefs (map missAt [60, 120, 180, 240, 300, 360, 420, 480]))) = 8"
  by (simp add: runLoop.simps(2) runDetection_def handLost_def missAt_def initRefs_def Let_def
        lossSignal_def)

subsection \<open>Throttle\<close>

text \<open>
  C9. Taking the clock reading of a frame as the time of the call it makes, any two calls of
  the pose model in a sequence of notifications are at least 60 ms apart. On a ready frame
  with less than 60 ms since the last detection time nothing is done but to ask for the next
  frame; on a ready frame with 60 ms or more the pose model is called once, and it is called
  with the last detection time already set to the clock reading. A frame that is not ready
  does nothing either.
\<close>

theorem C9_throttle:
  "(\<forall>i j. i < j \<and> j < length (invokedAt s ns) \<longrightarrow>
            60 \<le> invokedAt s ns ! j - invokedAt s ns ! i)
 \<and> (ready n \<and> now n - lastDetectionTime s < 60 \<longrightarrow>
       runDetection s n = (s, [RequestAnimationFrame]))
 \<and> (ready n \<and> \<not> now n - lastDetectionTime s < 60 \<longrightarrow>
       (\<exists>es. snd (runDetection s n) = EstimateHands (s\<lparr>lastDetectionTime := now n\<rparr>) # es
              \<and> \<not> invokes es)
     \<and> lastDetectionTime (fst (runDetection s n)) = now n)
 \<and> (\<not> ready n \<longrightarrow> runDetection s n = (s, [RequestAnimationFrame]))"
proof (intro conjI impI allI)
  fix i j
  assume "i < j \<and> j < length (invokedAt s ns)"
  with invokedAt_spaced [of s ns]
  show "60 \<le> invokedAt s ns ! j - invokedAt s ns ! i"
    by (simp add: sorted_wrt_iff_nth_less)
next
  assume "ready n \<and> now n - lastDetectionTime s < 60"
  then show "runDetection s n = (s, [RequestAnimationFrame])"
    by (simp add: runDetection_skip processed_def)
next
  assume a: "ready n \<and> \<not> now n - lastDetectionTime s < 60"
  then have p: "processed s n" by (simp add: processed_def)
  from runDetection_first_call [OF p]
  show "\<exists>es. snd (runDetection s n) = EstimateHands (s\<lparr>lastDetectionTime := now n\<rparr>) # es
              \<and> \<not> invokes es" .
  from p show "lastDetectionTime (fst (runDetection s n)) = now n"
    by (simp add: runDetection_lastDetectionTime)
next
  assume "\<not> ready n"
  then show "runDetection s n = (s, [RequestAnimationFrame])"
    by (simp add: runDetection_skip processed_def)
qed

theorem C9_throttle_witness:
  "invokedAt initRefs (map missAt [60, 76, 92, 108, 124, 140]) = [60, 124]
   \<and> 60 \<le> invokedAt initRefs (map missAt [60, 76, 92, 108, 124, 140]) ! 1
            - invokedAt initRefs (map missAt [60, 76, 92, 108, 124, 140]) ! 0
   \<and> ready (missAt 76) \<and> now (missAt 76) - lastDetectionTime (initRefs\<lparr>lastDetectionTime := 60\<rparr>) < 60
   \<and> runDetection (initRefs\<lparr>lastDetectionTime := 60\<rparr>) (missAt 76)
       = (initRefs\<lparr>lastDetectionTime := 60\<rparr>, [RequestAnimationFrame])
   \<and> \<not> now (missAt 124) - lastDetectionTime (initRefs\<lparr>lastDetectionTime := 60\<rparr>) < 60
   \<and> lastDetectionTime (fst (runDetection (initRefs\<lparr>lastDetectionTime := 60\<rparr>) (missAt 124))) = 124"
proof -
  have v: "invokedAt initRefs (map missAt [60, 76, 92, 108, 124, 140]) = [60, 124]"
    by (simp add: runDetection_invokes runDetection_lastDetectionTime processed_def Let_def
          missAt_def initRefs_def)
  have l: "(0::nat) < 1 \<and> 1 < length (invokedAt initRefs (map missAt [60, 76, 92, 108, 124, 140]))"
    unfolding v by simp
  have a: "ready (missAt 76) \<and> now (missAt 76) - lastDetectionTime (initRefs\<lparr>lastDetectionTime := 60\<rparr>) < 60"
    by (simp add: missAt_def)
  have b: "ready (missAt 124)
           \<and> \<not> now (missAt 124) - lastDetectionTime (initRefs\<lparr>lastDetectionTime := 60\<rparr>) < 60"
    by (simp add: missAt_def)
  have n: "now (missAt 124) = 124" by (simp add: missAt_def)
  from C9_throttle [of initRefs "map missAt [60, 76, 92, 108, 124, 140]" "missAt 76"] l a
  have one: "60 \<le> invokedAt initRefs (map missAt [60, 76, 92, 108, 124, 140]) ! 1
            - invokedAt initRefs (map missAt [60, 76, 92, 108, 124, 140]) ! 0" by blast
  from C9_throttle [of "initRefs\<lparr>lastDetectionTime := 60\<rparr>" "[]" "missAt 76"] a
  have two: "runDetection (initRefs\<lparr>lastDetectionTime := 60\<rparr>) (missAt 76)
       = (initRefs\<lparr>lastDetectionTime := 60\<rparr>, [RequestAnimationFrame])" by blast
  from C9_throttle [of "initRefs\<lparr>lastDetectionTime := 60\<rparr>" "[]" "missAt 124"] b
  have three: "lastDetectionTime (fst (runDetection (initRefs\<lparr>lastDetectionTime := 60\<rparr>) (missAt 124)))
                 = now (missAt 124)" by blast
  from v one two three a b show ?thesis by (simp only: n) simp
qed

subsection \<open>Order of reset and callback\<close>

text \<open>
  C10. Whenever \<open>onGesture\<close> is called with \<open>isDetected = false\<close>, the references at the
  moment of the call are already reset: the hysteresis state is false and both history
  buffers are empty. The argument is the loss signal, and the references at the call are
  those that the frame ends with.
\<close>

theorem C10_reset_before_callback:
  "(OnGesture g st \<in> set (snd (runLoop s ns)) \<and> \<not> isDetected g \<longrightarrow>
      \<not> isCurrentlyOpen st \<and> posHistory st = [] \<and> ratioHistory st = [] \<and> g = lossSignal)
 \<and> (OnGesture g st \<in> set (snd (runDetection s n)) \<and> \<not> isDetected g \<longrightarrow>
      st = fst (runDetection s n))"
proof -
  have one: "OnGesture g st \<in> set (snd (runLoop s ns)) \<and> \<not> isDetected g \<longrightarrow>
      \<not> isCurrentlyOpen st \<and> posHistory st = [] \<and> ratioHistory st = [] \<and> g = lossSignal"
    using runLoop_calls [of g st s ns] by (auto simp: cleared_def)
  have two: "OnGesture g st \<in> set (snd (runDetection s n)) \<and> \<not> isDetected g \<longrightarrow>
      st = fst (runDetection s n)"
    using runDetection_calls [of g st s n] by auto
  from one two show ?thesis by (rule conjI)
qed

theorem C10_reset_before_callback_witness:
  "OnGesture lossSignal \<lparr>lastDetectionTime = 360, ratioHistory = [], posHistory = [],
                          isCurrentlyOpen = False, missedFrames = 6\<rparr>
     \<in> set (snd (runLoop (initRefs\<lparr>isCurrentlyOpen := True, ratioHistory := [2], posHistory := [(0, 0)]\<rparr>)
                          (map missAt [60, 120, 180, 240, 300, 360])))
   \<and> \<not> isDetected lossSignal
   \<and> \<not> isCurrentlyOpen \<lparr>lastDetectionTime = 360, ratioHistory = [], posHistory = [],
                          isCurrentlyOpen = False, missedFrames = 6\<rparr>"
proof -
  let ?st = "\<lparr>lastDetectionTime = 360, ratioHistory = [], posHistory = [],
              isCurrentlyOpen = False, missedFrames = 6\<rparr>"
  let ?s = "initRefs\<lparr>isCurrentlyOpen := True, ratioHistory := [2], posHistory := [(0, 0)]\<rparr>"
  have m: "OnGesture lossSignal ?st \<in> set (snd (runLoop ?s (map missAt [60, 120, 180, 240, 300, 360])))"
    by (simp add: runLoop.simps(2) runDetection_def handLost_def missAt_def initRefs_def Let_def
          lossSignal_def)
  have d: "\<not> isDetected lossSignal"
    by (simp add: lossSignal_def)
  from C10_reset_before_callback [of lossSignal ?st ?s "map missAt [60, 120, 180, 240, 300, 360]"] m d
  have "\<not> isCurrentlyOpen ?st" by blast
  with m d show ?thesis by blast
qed

subsection \<open>Bounded history\<close>

text \<open>
  C6. In every state reachable from the initial one the position history holds at most 8
  samples and the ratio history at most 5, and every frame keeps these bounds. A tick with
  an observation appends the new sample, and when the buffer is full it drops exactly the
  oldest one.
\<close>

theorem C6_bounded_buffers:
  "length (posHistory (fst (runLoop initRefs ns))) \<le> 8
 \<and> length (ratioHistory (fst (runLoop initRefs ns))) \<le> 5
 \<and> (length (posHistory s) \<le> 8 \<and> length (ratioHistory s) \<le> 5 \<longrightarrow>
      length (posHistory (fst (runDetection s n))) \<le> 8
    \<and> length (ratioHistory (fst (runDetection s n))) \<le> 5)
 \<and> (processed s n \<and> inputPosition n = Some p \<longrightarrow>
      posHistory (fst (runDetection s n))
        = (if length (posHistory s) = 8 then tl (posHistory s) @ [p]
           else if length (posHistory s) < 8 then posHistory s @ [p]
           else tl (posHistory s @ [p])))
 \<and> (processed s n \<and> inputRatio n = Some r \<longrightarrow>
      ratioHistory (fst (runDetection s n))
        = (if length (ratioHistory s) = 5 then tl (ratioHistory s) @ [r]
           else if length (ratioHistory s) < 5 then ratioHistory s @ [r]
           else tl (ratioHistory s @ [r])))"
proof (intro conjI impI)
  have "bounded initRefs" by (simp add: bounded_def initRefs_def)
  from runLoop_bounded [OF this, of ns]
  show "length (posHistory (fst (runLoop initRefs ns))) \<le> 8"
    and "length (ratioHistory (fst (runLoop initRefs ns))) \<le> 5"
    by (simp_all add: bounded_def)
next
  assume "length (posHistory s) \<le> 8 \<and> length (ratioHistory s) \<le> 5"
  then have "bounded s" by (simp add: bounded_def)
  from runDetection_bounded [OF this, of n]
  show "length (posHistory (fst (runDetection s n))) \<le> 8"
    and "length (ratioHistory (fst (runDetection s n))) \<le> 5"
    by (simp_all add: bounded_def)
next
  assume "processed s n \<and> inputPosition n = Some p"
  then have "posHistory (fst (runDetection s n)) = pushShift 8 p (posHistory s)"
    by (simp add: position_pushed)
  then show "posHistory (fst (runDetection s n))
        = (if length (posHistory s) = 8 then tl (posHistory s) @ [p]
           else if length (posHistory s) < 8 then posHistory s @ [p]
           else tl (posHistory s @ [p]))"
    by (cases "posHistory s") (simp_all add: pushShift_def Let_def)
next
  assume "processed s n \<and> inputRatio n = Some r"
  then have "ratioHistory (fst (runDetection s n)) = pushShift 5 r (ratioHistory s)"
    by (simp add: ratio_pushed)
  then show "ratioHistory (fst (runDetection s n))
        = (if length (ratioHistory s) = 5 then tl (ratioHistory s) @ [r]
           else if length (ratioHistory s) < 5 then ratioHistory s @ [r]
           else tl (ratioHistory s @ [r]))"
    by (cases "ratioHistory s") (simp_all add: pushShift_def Let_def)
qed

theorem C6_bounded_buffers_witness:
  "processed (initRefs\<lparr>posHistory := [(1, 1), (2, 2), (3, 3), (4, 4), (5, 5), (6, 6), (7, 7), (8, 8)],
                       ratioHistory := [1, 2, 3, 4, 5]\<rparr>) (handAt 60 (sampleHand 2 3))
   \<and> posHistory (fst (runDetection
         (initRefs\<lparr>posHistory := [(1, 1), (2, 2), (3, 3), (4, 4), (5, 5), (6, 6), (7, 7), (8, 8)],
                    ratioHistory := [1, 2, 3, 4, 5]\<rparr>) (handAt 60 (sampleHand 2 3))))
       = [(2, 2), (3, 3), (4, 4), (5, 5), (6, 6), (7, 7), (8, 8), (0, 0)]
   \<and> ratioHistory (fst (runDetection
         (initRefs\<lparr>posHistory := [(1, 1), (2, 2), (3, 3), (4, 4), (5, 5), (6, 6), (7, 7), (8, 8)],
                    ratioHistory := [1, 2, 3, 4, 5]\<rparr>) (handAt 60 (sampleHand 2 3))))
       = [2, 3, 4, 5, 3 / 2]"
proof -
  let ?s = "initRefs\<lparr>posHistory := [(1, 1), (2, 2), (3, 3), (4, 4), (5, 5), (6, 6), (7, 7), (8, 8)],
                      ratioHistory := [1, 2, 3, 4, 5]\<rparr>"
  let ?n = "handAt 60 (sampleHand 2 3)"
  have p: "processed ?s ?n"
    by (simp add: processed_def initRefs_def handAt_def)
  have i: "inputPosition ?n = Some (0, 0)"
    by (rule inputPosition_sampleHand)
  have r: "inputRatio ?n = Some (3 / 2)"
    by (simp add: inputRatio_sampleHand orOne_def)
  have b: "length (posHistory ?s) \<le> 8 \<and> length (ratioHistory ?s) \<le> 5"
    by simp
  from C6_bounded_buffers [of "[]" ?s ?n "(0, 0)" "3 / 2"] p i r b
  show ?thesis by simp
qed

subsection \<open>Hysteresis\<close>



subsection \<open>Moving averages\<close>

text \<open>
  C7 (as the code has it). From a state within the bounds of the buffers, a run of at least
  8 observed ticks that all carry the raw position \<open>p\<close> (on a video of positive width and
  height, where the divisions of lines 72 and 73 are defined) fills the position history
  with \<open>p\<close>, and the position passed to \<open>onGesture\<close> on the last tick is the mean of the
  buffer as the code computes it, in double precision: each coordinate is within a
  relative error of \<open>10 / 2 ^ 53\<close> of that of \<open>p\<close>. A run of at least 5 observed ticks that
  all carry the raw ratio \<open>r\<close> fills the ratio history with \<open>r\<close>, and the smoothed ratio is
  within a relative error of \<open>7 / 2 ^ 53\<close> of \<open>r\<close>. The output need not be equal to the
  input.
\<close>

theorem C7_moving_average_within_rounding:
  assumes "ticks (lastDetectionTime s) ns" and "list_all observed ns"
    and "length (posHistory s) \<le> 8" and "length (ratioHistory s) \<le> 5"
  shows "(8 \<le> length ns
          \<and> list_all (\<lambda>n. inputPosition n = Some p \<and> 0 < videoWidth n \<and> 0 < videoHeight n) ns \<longrightarrow>
            posHistory (fst (runLoop s ns)) = replicate 8 p
          \<and> gestures (snd (runLoop s ns)) \<noteq> []
          \<and> position (last (gestures (snd (runLoop s ns))))
              = smoothedPos (posHistory (fst (runLoop s ns)))
          \<and> \<bar>fst (position (last (gestures (snd (runLoop s ns))))) - fst p\<bar>
              \<le> 10 * \<bar>fst p\<bar> / 2 ^ 53
          \<and> \<bar>snd (position (last (gestures (snd (runLoop s ns))))) - snd p\<bar>
              \<le> 10 * \<bar>snd p\<bar> / 2 ^ 53)
       \<and> (5 \<le> length ns \<and> list_all (\<lambda>n. inputRatio n = Some r) ns \<longrightarrow>
            ratioHistory (fst (runLoop s ns)) = replicate 5 r
          \<and> \<bar>smoothedRatio (ratioHistory (fst (runLoop s ns))) - r\<bar> \<le> 7 * \<bar>r\<bar> / 2 ^ 53)"
proof -
  have pos: "8 \<le> length ns
          \<and> list_all (\<lambda>n. inputPosition n = Some p \<and> 0 < videoWidth n \<and> 0 < videoHeight n) ns \<longrightarrow>
            posHistory (fst (runLoop s ns)) = replicate 8 p
          \<and> gestures (snd (runLoop s ns)) \<noteq> []
          \<and> position (last (gestures (snd (runLoop s ns))))
              = smoothedPos (posHistory (fst (runLoop s ns)))
          \<and> \<bar>fst (position (last (gestures (snd (runLoop s ns))))) - fst p\<bar>
              \<le> 10 * \<bar>fst p\<bar> / 2 ^ 53
          \<and> \<bar>snd (position (last (gestures (snd (runLoop s ns))))) - snd p\<bar>
              \<le> 10 * \<bar>snd p\<bar> / 2 ^ 53"
  proof
    assume a: "8 \<le> length ns
          \<and> list_all (\<lambda>n. inputPosition n = Some p \<and> 0 < videoWidth n \<and> 0 < videoHeight n) ns"
    then have c: "list_all (\<lambda>n. inputPosition n = Some p) ns"
      by (simp add: list_all_iff)
    from a have ne: "ns \<noteq> []" by auto
    from position_constantRun [OF assms(1) c assms(3)] a
    have h: "posHistory (fst (runLoop s ns)) = replicate 8 p"
      by (simp only: drop_constant)
    from observedRun_last_gesture [OF assms(1,2) ne]
    have g: "gestures (snd (runLoop s ns)) \<noteq> []"
      and l: "position (last (gestures (snd (runLoop s ns))))
               = smoothedPos (posHistory (fst (runLoop s ns)))"
      by simp_all
    have ex: "\<bar>fst (smoothedPos (replicate 8 p)) - fst p\<bar> \<le> 10 * \<bar>fst p\<bar> / 2 ^ 53"
      using smoothedPos_constant(1) [of 8 p] by simp
    have ey: "\<bar>snd (smoothedPos (replicate 8 p)) - snd p\<bar> \<le> 10 * \<bar>snd p\<bar> / 2 ^ 53"
      using smoothedPos_constant(2) [of 8 p] by simp
    from h g l ex ey
    show "posHistory (fst (runLoop s ns)) = replicate 8 p
          \<and> gestures (snd (runLoop s ns)) \<noteq> []
          \<and> position (last (gestures (snd (runLoop s ns))))
              = smoothedPos (posHistory (fst (runLoop s ns)))
          \<and> \<bar>fst (position (last (gestures (snd (runLoop s ns))))) - fst p\<bar>
              \<le> 10 * \<bar>fst p\<bar> / 2 ^ 53
          \<and> \<bar>snd (position (last (gestures (snd (runLoop s ns))))) - snd p\<bar>
              \<le> 10 * \<bar>snd p\<bar> / 2 ^ 53"
      by simp
  qed
  have ratio: "5 \<le> length ns \<and> list_all (\<lambda>n. inputRatio n = Some r) ns \<longrightarrow>
            ratioHistory (fst (runLoop s ns)) = replicate 5 r
          \<and> \<bar>smoothedRatio (ratioHistory (fst (runLoop s ns))) - r\<bar> \<le> 7 * \<bar>r\<bar> / 2 ^ 53"
  proof
    assume a: "5 \<le> length ns \<and> list_all (\<lambda>n. inputRatio n = Some r) ns"
    then have c: "list_all (\<lambda>n. inputRatio n = Some r) ns" by simp
    from ratio_constantRun [OF assms(1) c assms(4)] a
    have h: "ratioHistory (fst (runLoop s ns)) = replicate 5 r"
      by (simp only: drop_constant)
    have "\<bar>smoothedRatio (replicate 5 r) - r\<bar> \<le> 7 * \<bar>r\<bar> / 2 ^ 53"
      using smoothedRatio_constant [of 5 r] by simp
    with h show "ratioHistory (fst (runLoop s ns)) = replicate 5 r
          \<and> \<bar>smoothedRatio (ratioHistory (fst (runLoop s ns))) - r\<bar> \<le> 7 * \<bar>r\<bar> / 2 ^ 53"
      by simp
  qed
  from pos ratio show ?thesis by (rule conjI)
qed

theorem C7_moving_average_within_rounding_witness:
  "ticks (lastDetectionTime (initRefs\<lparr>posHistory := [(1, 1)], ratioHistory := [7]\<rparr>))
     (map (\<lambda>t. wideAt t (pointHand 128)) [60, 120, 180, 240, 300, 360, 420, 480])
   \<and> list_all observed (map (\<lambda>t. wideAt t (pointHand 128)) [60, 120, 180, 240, 300, 360, 420, 480])
   \<and> posHistory (fst (runLoop (initRefs\<lparr>posHistory := [(1, 1)], ratioHistory := [7]\<rparr>)
        (map (\<lambda>t. wideAt t (pointHand 128)) [60, 120, 180, 240, 300, 360, 420, 480])))
       = replicate 8 (3 / 4, 0)
   \<and> \<bar>fst (position (last (gestures (snd (runLoop (initRefs\<lparr>posHistory := [(1, 1)], ratioHistory := [7]\<rparr>)
        (map (\<lambda>t. wideAt t (pointHand 128)) [60, 120, 180, 240, 300, 360, 420, 480]))))))
        - 3 / 4\<bar> \<le> 10 * (3 / 4) / 2 ^ 53
   \<and> ratioHistory (fst (runLoop (initRefs\<lparr>posHistory := [(1, 1)], ratioHistory := [7]\<rparr>)
        (map (\<lambda>t. handAt t (sampleHand 10 15)) [60, 120, 180, 240, 300, 360, 420, 480])))
       = replicate 5 (3 / 2)
   \<and> \<bar>smoothedRatio (ratioHistory (fst (runLoop (initRefs\<lparr>posHistory := [(1, 1)], ratioHistory := [7]\<rparr>)
        (map (\<lambda>t. handAt t (sampleHand 10 15)) [60, 120, 180, 240, 300, 360, 420, 480]))))
        - 3 / 2\<bar> \<le> 7 * (3 / 2) / 2 ^ 53"
proof -
  let ?s = "initRefs\<lparr>posHistory := [(1, 1)], ratioHistory := [7]\<rparr>"
  let ?ns = "map (\<lambda>t. wideAt t (pointHand 128)) [60, 120, 180, 240, 300, 360, 420, 480]"
  let ?ms = "map (\<lambda>t. handAt t (sampleHand 10 15)) [60, 120, 180, 240, 300, 360, 420, 480]"
  have t: "ticks (lastDetectionTime ?s) ?ns"
    by (simp add: wideAt_fields initRefs_def)
  have o: "list_all observed ?ns"
    by (simp add: observed_wideAt length_pointHand)
  have t': "ticks (lastDetectionTime ?s) ?ms"
    by (simp add: handAt_fields initRefs_def)
  have o': "list_all observed ?ms"
    by (simp add: observed_handAt length_sampleHand)
  have b1: "length (posHistory ?s) \<le> 8" and b2: "length (ratioHistory ?s) \<le> 5"
    by simp_all
  have l8: "8 \<le> length ?ns" and l5: "5 \<le> length ?ms"
    by simp_all
  have p: "list_all (\<lambda>n. inputPosition n = Some (3 / 4, 0) \<and> 0 < videoWidth n \<and> 0 < videoHeight n) ?ns"
    by (simp add: inputPosition_pointHand wideAt_fields)
  have r: "list_all (\<lambda>n. inputRatio n = Some (3 / 2)) ?ms"
    by (simp add: inputRatio_sampleHand orOne_def)
  from C7_moving_average_within_rounding [OF t o b1 b2, of "(3 / 4, 0)" 0] l8 p
  have h: "posHistory (fst (runLoop ?s ?ns)) = replicate 8 (3 / 4, 0)"
    and "\<bar>fst (position (last (gestures (snd (runLoop ?s ?ns))))) - fst (3 / 4 :: real, 0 :: real)\<bar>
          \<le> 10 * \<bar>fst (3 / 4 :: real, 0 :: real)\<bar> / 2 ^ 53"
    by blast+
  then have x: "\<bar>fst (position (last (gestures (snd (runLoop ?s ?ns))))) - 3 / 4\<bar>
          \<le> 10 * (3 / 4) / 2 ^ 53"
    by simp
  from C7_moving_average_within_rounding [OF t' o' b1 b2, of "(0, 0)" "3 / 2"] l5 r
  have k: "ratioHistory (fst (runLoop ?s ?ms)) = replicate 5 (3 / 2)"
    and "\<bar>smoothedRatio (ratioHistory (fst (runLoop ?s ?ms))) - 3 / 2\<bar> \<le> 7 * \<bar>3 / 2 :: real\<bar> / 2 ^ 53"
    by blast+
  then have y: "\<bar>smoothedRatio (ratioHistory (fst (runLoop ?s ?ms))) - 3 / 2\<bar> \<le> 7 * (3 / 2) / 2 ^ 53"
    by simp
  from h x k y t o show ?thesis by blast
qed

text \<open>
  The output is not always the input. On a 1024 by 768 video, with the wrist at the pixel
  \<open>(249990935881565 / 2 ^ 44, 384)\<close>, every operation of lines 72 and 73 is exact and the
  raw position is \<open>(8757208318859427 / 2 ^ 53, 0)\<close>. Eight ticks with this hand fill the
  buffer with it, and the sums of line 78 round at the third, fifth, sixth, seventh and
  eighth step: the position passed to \<open>onGesture\<close> on the eighth tick has the first
  coordinate \<open>4378604159429713 / 2 ^ 52\<close>, one unit of the last place below the input.
\<close>

theorem C7_counterexample:
  "ticks (lastDetectionTime initRefs)
     (map (\<lambda>t. wideAt t (pointHand (249990935881565 / 17592186044416))) [60, 120, 180, 240, 300, 360, 420, 480])
   \<and> list_all observed
     (map (\<lambda>t. wideAt t (pointHand (249990935881565 / 17592186044416))) [60, 120, 180, 240, 300, 360, 420, 480])
   \<and> list_all (\<lambda>n. inputPosition n = Some (8757208318859427 / 9007199254740992, 0))
     (map (\<lambda>t. wideAt t (pointHand (249990935881565 / 17592186044416))) [60, 120, 180, 240, 300, 360, 420, 480])
   \<and> posHistory (fst (runLoop initRefs
       (map (\<lambda>t. wideAt t (pointHand (249990935881565 / 17592186044416))) [60, 120, 180, 240, 300, 360, 420, 480])))
       = replicate 8 (8757208318859427 / 9007199254740992, 0)
   \<and> position (last (gestures (snd (runLoop initRefs
       (map (\<lambda>t. wideAt t (pointHand (249990935881565 / 17592186044416))) [60, 120, 180, 240, 300, 360, 420, 480])))))
       = (4378604159429713 / 4503599627370496, 0)
   \<and> (4378604159429713 / 4503599627370496 :: real) \<noteq> 8757208318859427 / 9007199254740992"
proof -
  let ?ns = "map (\<lambda>t. wideAt t (pointHand (249990935881565 / 17592186044416))) [60, 120, 180, 240, 300, 360, 420, 480]"
  have t: "ticks (lastDetectionTime initRefs) ?ns"
    by (simp add: wideAt_fields initRefs_def)
  have o: "list_all observed ?ns"
    by (simp add: observed_wideAt length_pointHand)
  have c: "list_all (\<lambda>n. inputPosition n = Some (8757208318859427 / 9007199254740992, 0)) ?ns"
    by (simp add: inputPosition_pointHand)
  have b: "length (posHistory initRefs) \<le> 8"
    by (simp add: initRefs_def)
  have l8: "8 \<le> length ?ns"
    by simp
  have ne: "?ns \<noteq> []"
    by simp
  from position_constantRun [OF t c b] l8
  have h: "posHistory (fst (runLoop initRefs ?ns)) = replicate 8 (8757208318859427 / 9007199254740992, 0)"
    by (simp only: drop_constant)
  have a1: "rnd (0 + 8757208318859427 / 9007199254740992) = 8757208318859427 / 9007199254740992"
    by (subst rnd_eval [where k = 53]) (simp_all add: roundEven_def)
  have a2: "rnd (8757208318859427 / 9007199254740992
                + 8757208318859427 / 9007199254740992)
             = 8757208318859427 / 4503599627370496"
    by (subst rnd_eval [where k = 52]) (simp_all add: roundEven_def)
  have a3: "rnd (8757208318859427 / 4503599627370496
                + 8757208318859427 / 9007199254740992)
             = 3283953119572285 / 1125899906842624"
    by (subst rnd_eval [where k = 51]) (simp_all add: roundEven_def)
  have a4: "rnd (3283953119572285 / 1125899906842624
                + 8757208318859427 / 9007199254740992)
             = 8757208318859427 / 2251799813685248"
    by (subst rnd_eval [where k = 51]) (simp_all add: roundEven_def)
  have a5: "rnd (8757208318859427 / 2251799813685248
                + 8757208318859427 / 9007199254740992)
             = 2736627599643571 / 562949953421312"
    by (subst rnd_eval [where k = 50]) (simp_all add: roundEven_def)
  have a6: "rnd (2736627599643571 / 562949953421312
                + 8757208318859427 / 9007199254740992)
             = 3283953119572285 / 562949953421312"
    by (subst rnd_eval [where k = 50]) (simp_all add: roundEven_def)
  have a7: "rnd (3283953119572285 / 562949953421312
                + 8757208318859427 / 9007199254740992)
             = 3831278639500999 / 562949953421312"
    by (subst rnd_eval [where k = 50]) (simp_all add: roundEven_def)
  have a8: "rnd (3831278639500999 / 562949953421312
                + 8757208318859427 / 9007199254740992)
             = 4378604159429713 / 562949953421312"
    by (subst rnd_eval [where k = 50]) (simp_all add: roundEven_def)
  have q: "rnd (4378604159429713 / 562949953421312 / 8) = 4378604159429713 / 4503599627370496"
    by (subst rnd_eval [where k = 53]) (simp_all add: roundEven_def)
  have z: "rnd (0 + 0) = 0"
    by (simp add: rnd_zero)
  have z8: "rnd (0 / 8) = 0"
    by (simp add: rnd_zero)
  have l: "replicate 8 v = [v, v, v, v, v, v, v, v]" for v :: real
    by (simp add: numeral_eq_Suc)
  have n: "real (length (replicate 8 v)) = 8" for v :: real
    by simp
  have x: "smoothedRatio (replicate 8 (8757208318859427 / 9007199254740992)) = 4378604159429713 / 4503599627370496"
    unfolding smoothedRatio_def n
    by (simp only: l foldl_Cons foldl_Nil a1 a2 a3 a4 a5 a6 a7 a8 q)
  have y: "smoothedRatio (replicate 8 0) = 0"
    unfolding smoothedRatio_def n
    by (simp only: l foldl_Cons foldl_Nil z z8)
  have m: "smoothedPos (replicate 8 (8757208318859427 / 9007199254740992, 0)) = (4378604159429713 / 4503599627370496, 0)"
    by (simp only: smoothedPos_components map_replicate fst_conv snd_conv x y)
  from observedRun_last_gesture [OF t o ne]
  have g: "position (last (gestures (snd (runLoop initRefs ?ns)))) = (4378604159429713 / 4503599627370496, 0)"
    by (simp only: h m)
  have d: "(4378604159429713 / 4503599627370496 :: real) \<noteq> 8757208318859427 / 9007199254740992"
    by simp
  from t o c h g d show ?thesis by blast
qed

end
